theory Spec2Isabelle
  imports Complex_Main
begin

section \<open>JavaScript numbers with their non-finite values\<close>

text \<open>
  The reusable controller of \<^verbatim>\<open>PIDController.ts\<close> is constructed with the default
  bounds \<^verbatim>\<open>-Infinity\<close> and \<^verbatim>\<open>Infinity\<close> and divides by a gain that the sliders of
  the page can set to zero, so its arithmetic is modelled on a number type that has the
  three special values of an IEEE double. On finite values the operations are the exact
  ones of the reals: rounding and overflow of finite results are not modelled. A zero is
  unsigned and a zero divisor is read as \<^verbatim>\<open>+0\<close> (the gains and time steps of this
  program are never negative zeros).
\<close>

datatype number = Fin real | PosInfinity | NegInfinity | NaN

fun isFinite :: "number \<Rightarrow> bool" where
  "isFinite (Fin a) = True"
| "isFinite PosInfinity = False"
| "isFinite NegInfinity = False"
| "isFinite NaN = False"

instantiation number :: "{plus, uminus, minus, times, inverse}"
begin

fun plus_number :: "number \<Rightarrow> number \<Rightarrow> number" where
  "plus_number (Fin a) (Fin b) = Fin (a + b)"
| "plus_number NaN b = NaN"
| "plus_number a NaN = NaN"
| "plus_number PosInfinity NegInfinity = NaN"
| "plus_number NegInfinity PosInfinity = NaN"
| "plus_number PosInfinity b = PosInfinity"
| "plus_number a PosInfinity = PosInfinity"
| "plus_number NegInfinity b = NegInfinity"
| "plus_number a NegInfinity = NegInfinity"

fun uminus_number :: "number \<Rightarrow> number" where
  "uminus_number (Fin a) = Fin (- a)"
| "uminus_number PosInfinity = NegInfinity"
| "uminus_number NegInfinity = PosInfinity"
| "uminus_number NaN = NaN"

definition minus_number :: "number \<Rightarrow> number \<Rightarrow> number" where
  "minus_number a b = a + (- b)"

fun times_number :: "number \<Rightarrow> number \<Rightarrow> number" where
  "times_number (Fin a) (Fin b) = Fin (a * b)"
| "times_number NaN b = NaN"
| "times_number a NaN = NaN"
| "times_number PosInfinity (Fin b) =
     (if b = 0 then NaN else if 0 < b then PosInfinity else NegInfinity)"
| "times_number (Fin a) PosInfinity =
     (if a = 0 then NaN else if 0 < a then PosInfinity else NegInfinity)"
| "times_number NegInfinity (Fin b) =
     (if b = 0 then NaN else if 0 < b then NegInfinity else PosInfinity)"
| "times_number (Fin a) NegInfinity =
     (if a = 0 then NaN else if 0 < a then NegInfinity else PosInfinity)"
| "times_number PosInfinity PosInfinity = PosInfinity"
| "times_number PosInfinity NegInfinity = NegInfinity"
| "times_number NegInfinity PosInfinity = NegInfinity"
| "times_number NegInfinity NegInfinity = PosInfinity"

fun divide_number :: "number \<Rightarrow> number \<Rightarrow> number" where
  "divide_number (Fin a) (Fin b) =
     (if b = 0 then (if a = 0 then NaN else if 0 < a then PosInfinity else NegInfinity)
      else Fin (a / b))"
| "divide_number NaN b = NaN"
| "divide_number a NaN = NaN"
| "divide_number (Fin a) PosInfinity = Fin 0"
| "divide_number (Fin a) NegInfinity = Fin 0"
| "divide_number PosInfinity (Fin b) = (if 0 \<le> b then PosInfinity else NegInfinity)"
| "divide_number NegInfinity (Fin b) = (if 0 \<le> b then NegInfinity else PosInfinity)"
| "divide_number PosInfinity PosInfinity = NaN"
| "divide_number PosInfinity NegInfinity = NaN"
| "divide_number NegInfinity PosInfinity = NaN"
| "divide_number NegInfinity NegInfinity = NaN"

definition inverse_number :: "number \<Rightarrow> number" where
  "inverse_number a = divide (Fin 1) a"

instance ..

end

text \<open>\<^verbatim>\<open>Math.max\<close> and \<^verbatim>\<open>Math.min\<close>: \<^verbatim>\<open>NaN\<close> as soon as one argument is.\<close>

fun Math_max :: "number \<Rightarrow> number \<Rightarrow> number" where
  "Math_max (Fin a) (Fin b) = Fin (max a b)"
| "Math_max NaN b = NaN"
| "Math_max a NaN = NaN"
| "Math_max PosInfinity b = PosInfinity"
| "Math_max a PosInfinity = PosInfinity"
| "Math_max NegInfinity b = b"
| "Math_max a NegInfinity = a"

fun Math_min :: "number \<Rightarrow> number \<Rightarrow> number" where
  "Math_min (Fin a) (Fin b) = Fin (min a b)"
| "Math_min NaN b = NaN"
| "Math_min a NaN = NaN"
| "Math_min NegInfinity b = NegInfinity"
| "Math_min a NegInfinity = NegInfinity"
| "Math_min PosInfinity b = b"
| "Math_min a PosInfinity = a"

text \<open>
  \<^verbatim>\<open>Math.sin\<close>, \<^verbatim>\<open>Math.cos\<close> and \<^verbatim>\<open>Math.abs\<close>, and the strict equality
  \<^verbatim>\<open>===\<close>, which \<^verbatim>\<open>NaN\<close> never satisfies.
\<close>

fun Math_sin :: "number \<Rightarrow> number" where
  "Math_sin (Fin a) = Fin (sin a)"
| "Math_sin PosInfinity = NaN"
| "Math_sin NegInfinity = NaN"
| "Math_sin NaN = NaN"

fun Math_cos :: "number \<Rightarrow> number" where
  "Math_cos (Fin a) = Fin (cos a)"
| "Math_cos PosInfinity = NaN"
| "Math_cos NegInfinity = NaN"
| "Math_cos NaN = NaN"

fun Math_abs :: "number \<Rightarrow> number" where
  "Math_abs (Fin a) = Fin \<bar>a\<bar>"
| "Math_abs PosInfinity = PosInfinity"
| "Math_abs NegInfinity = PosInfinity"
| "Math_abs NaN = NaN"

fun strict_eq :: "number \<Rightarrow> number \<Rightarrow> bool" where
  "strict_eq (Fin a) (Fin b) = (a = b)"
| "strict_eq PosInfinity PosInfinity = True"
| "strict_eq NegInfinity NegInfinity = True"
| "strict_eq a b = False"

section \<open>The reusable PID controller (\<^verbatim>\<open>PIDController.ts\<close>)\<close>

record PIDController =
  prevError :: number
  integral :: number
  lastTime :: "number option"
  kp :: number
  ki :: number
  kd :: number
  outputMin :: number
  outputMax :: number

text \<open>The constructor; the field initialisers give the transient state.\<close>

definition new_PIDController ::
  "number \<Rightarrow> number \<Rightarrow> number \<Rightarrow> number \<Rightarrow> number \<Rightarrow> PIDController" where
  "new_PIDController p i d omin omax =
     \<lparr>prevError = Fin 0, integral = Fin 0, lastTime = None,
      kp = p, ki = i, kd = d, outputMin = omin, outputMax = omax\<rparr>"

text \<open>The constructor called without the two bounds.\<close>

definition new_PIDController_default :: "number \<Rightarrow> number \<Rightarrow> number \<Rightarrow> PIDController" where
  "new_PIDController_default p i d = new_PIDController p i d NegInfinity PosInfinity"

text \<open>
  \<^verbatim>\<open>update(setpoint, measured, dt)\<close> returns the output and leaves the controller
  with the clamped integral and the new previous error. The source has no test on
  \<^verbatim>\<open>ki\<close> before the two divisions.
\<close>

definition update :: "PIDController \<Rightarrow> number \<Rightarrow> number \<Rightarrow> number \<Rightarrow> number \<times> PIDController" where
  "update c setpoint measured dt =
     (let error = setpoint - measured;
          integral1 = integral c + error * dt;
          maxIntegral = (outputMax c - kp c * error) / ki c;
          minIntegral = (outputMin c - kp c * error) / ki c;
          integral2 = Math_min (Math_max integral1 minIntegral) maxIntegral;
          derivative = (error - prevError c) / dt;
          output = kp c * error + ki c * integral2 + kd c * derivative;
          output' = Math_min (Math_max output (outputMin c)) (outputMax c)
      in (output', c\<lparr>integral := integral2, prevError := error\<rparr>))"

definition reset :: "PIDController \<Rightarrow> PIDController" where
  "reset c = c\<lparr>prevError := Fin 0, integral := Fin 0, lastTime := None\<rparr>"

definition setGains :: "PIDController \<Rightarrow> number \<Rightarrow> number \<Rightarrow> number \<Rightarrow> PIDController" where
  "setGains c p i d = c\<lparr>kp := p, ki := i, kd := d\<rparr>"


section \<open>The cart-pole simulation (\<^verbatim>\<open>CartPole.tsx\<close>)\<close>

text \<open>
  The cart-pole starts from finite values, its time step and its divisors are non-zero
  constants and it never divides by a quantity that can vanish (the denominator
  \<open>poleLength * temp\<close> is at least \<open>0.5\<close>), so its numbers are modelled as reals.
  The rounding of doubles is modelled where a result depends on it: for the two lines
  that wrap the angle, in \<open>normalizeAngle_double\<close>.
  The fields \<^verbatim>\<open>x, theta, dx, dtheta, score\<close> of \<^verbatim>\<open>CartPoleState\<close> carry the prefix
  \<open>st_\<close>, the fields of the local \<^verbatim>\<open>PIDController\<close> interface the prefix \<open>pid_\<close>.
\<close>

record CartPoleState =
  st_x :: real
  st_theta :: real
  st_dx :: real
  st_dtheta :: real
  st_score :: real

record CartPID =
  pid_target :: real
  pid_kp :: real
  pid_ki :: real
  pid_kd :: real
  pid_integral :: real
  pid_lastError :: real

definition gravity :: real where "gravity = 9.81"
definition cartMass :: real where "cartMass = 1.0"
definition poleMass :: real where "poleMass = 0.1"
definition totalMass :: real where "totalMass = cartMass + poleMass"
definition poleLength :: real where "poleLength = 0.5"
definition cartpole_dt :: real where "cartpole_dt = 0.02"
definition maxForce :: real where "maxForce = 15.0"

text \<open>
  \<^verbatim>\<open>calculatePIDControl\<close> writes the integral and the last error into the controller
  object it is given; the model returns the force together with the updated controller.
\<close>

definition calculatePIDControl :: "CartPoleState \<Rightarrow> CartPID \<Rightarrow> real \<times> CartPID" where
  "calculatePIDControl state controller =
     (let error = st_theta state - pid_target controller;
          controller1 = controller\<lparr>pid_integral := pid_integral controller + error * cartpole_dt\<rparr>;
          derivative = (error - pid_lastError controller1) / cartpole_dt;
          output = pid_kp controller1 * error
                   + pid_ki controller1 * pid_integral controller1
                   + pid_kd controller1 * derivative;
          controller2 = controller1\<lparr>pid_lastError := error\<rparr>
      in (max (- maxForce) (min maxForce output), controller2))"

text \<open>
  The remainder operator \<^verbatim>\<open>%\<close> of JavaScript truncates the quotient towards zero, so
  the result has the sign of the dividend. Its only divisor here is \<open>2 * pi\<close>.
\<close>

definition trunc :: "real \<Rightarrow> int" where
  "trunc r = (if 0 \<le> r then \<lfloor>r\<rfloor> else \<lceil>r\<rceil>)"

definition js_rem :: "real \<Rightarrow> real \<Rightarrow> real" where
  "js_rem a b = a - b * of_int (trunc (a / b))"

text \<open>
  The two lines of \<^verbatim>\<open>updatePhysics\<close> that wrap the new angle, in the exact
  arithmetic of the rest of the step.
\<close>

definition normalizeAngle :: "real \<Rightarrow> real" where
  "normalizeAngle newTheta =
     (let normalizedTheta = js_rem (js_rem newTheta (2 * pi) + 2 * pi) (2 * pi)
      in if normalizedTheta > pi then normalizedTheta - 2 * pi else normalizedTheta)"

text \<open>
  The same two lines in the arithmetic of the code. A double is a real on the grid of
  its binade, \<open>to_double\<close> rounds a real to the nearest double, ties to the even
  multiple, with the subnormal grid below \<open>2 powi (- 1022)\<close>; overflow is not
  modelled, the wrapped values are below 16. \<^verbatim>\<open>Math.PI\<close> is the double
  \<open>0x400921FB54442D18\<close>. The remainder of two doubles is a double, so \<^verbatim>\<open>%\<close>
  does not round; the sum and the difference do, and so does \<^verbatim>\<open>2 * Math.PI\<close>.
\<close>

definition round_even :: "real \<Rightarrow> int" where
  "round_even y =
     (let f = \<lfloor>y\<rfloor>; d = y - of_int f
      in if d < 1 / 2 then f else if 1 / 2 < d then f + 1 else if even f then f else f + 1)"

definition binade :: "real \<Rightarrow> int" where
  "binade x = max \<lfloor>log 2 \<bar>x\<bar>\<rfloor> (- 1022)"

definition ulp :: "real \<Rightarrow> real" where
  "ulp x = 2 powi (binade x - 52)"

definition to_double :: "real \<Rightarrow> real" where
  "to_double x = (if x = 0 then 0 else of_int (round_even (x / ulp x)) * ulp x)"

definition Math_PI :: real where
  "Math_PI = 884279719003555 / 2 ^ 48"

definition normalizeAngle_double :: "real \<Rightarrow> real" where
  "normalizeAngle_double newTheta =
     (let normalizedTheta =
            js_rem (to_double (js_rem newTheta (to_double (2 * Math_PI)) + to_double (2 * Math_PI)))
                   (to_double (2 * Math_PI))
      in if normalizedTheta > Math_PI then to_double (normalizedTheta - to_double (2 * Math_PI))
         else normalizedTheta)"

definition updatePhysics :: "CartPoleState \<Rightarrow> real \<Rightarrow> CartPoleState" where
  "updatePhysics currentState appliedForce =
     (let x = st_x currentState; theta = st_theta currentState;
          dx = st_dx currentState; dtheta = st_dtheta currentState;
          cosTheta = cos theta;
          sinTheta = sin theta;
          poleForce = poleMass * poleLength * dtheta * dtheta * sinTheta;
          temp = totalMass - poleMass * cosTheta * cosTheta;
          ddtheta = (gravity * sinTheta * totalMass - (appliedForce + poleForce) * cosTheta)
                    / (poleLength * temp);
          ddx = (appliedForce + poleForce + poleMass * poleLength * ddtheta * cosTheta
                 - poleMass * poleLength * dtheta * dtheta * sinTheta) / totalMass;
          newX = x + dx * cartpole_dt;
          newTheta = theta + dtheta * cartpole_dt;
          newDx = dx + ddx * cartpole_dt;
          newDtheta = dtheta + ddtheta * cartpole_dt;
          finalTheta = normalizeAngle newTheta
      in \<lparr>st_x = newX, st_theta = finalTheta, st_dx = newDx, st_dtheta = newDtheta,
          st_score = st_score currentState + 1\<rparr>)"

text \<open>
  The component's state and the callback of its interval timer. The timer exists only
  while \<^verbatim>\<open>isRunning\<close> holds; \<^verbatim>\<open>setIsRunning(false)\<close> removes it.
\<close>

record CartPoleSimulator =
  state :: CartPoleState
  pidController :: CartPID
  isRunning :: bool
  force :: real
  isAutoPilot :: bool

definition tick :: "CartPoleSimulator \<Rightarrow> CartPoleSimulator" where
  "tick sim =
     (if \<not> isRunning sim then sim
      else
        let current = state sim;
            (currentForce, controller) =
              (if isAutoPilot sim then calculatePIDControl current (pidController sim)
               else (force sim, pidController sim));
            newState = updatePhysics current currentForce
        in if \<bar>st_x newState\<bar> > 2.4 \<or> \<bar>st_theta newState\<bar> > pi * 0.5
           then sim\<lparr>pidController := controller, isRunning := False\<rparr>
           else sim\<lparr>state := newState, pidController := controller\<rparr>)"

text \<open>The controller called \<open>n\<close> times on the same measured state.\<close>

fun sustained :: "nat \<Rightarrow> CartPoleState \<Rightarrow> CartPID \<Rightarrow> CartPID" where
  "sustained 0 s c = c"
| "sustained (Suc n) s c = sustained n s (snd (calculatePIDControl s c))"

section \<open>The drone simulations (\<^verbatim>\<open>DisturbanceConfig.ts\<close>, \<^verbatim>\<open>DorneSim.tsx\<close>)\<close>

text \<open>
  Three functions of the source are named \<^verbatim>\<open>updatePhysics\<close>: the one of the cart-pole
  keeps the name, the one of the component in \<^verbatim>\<open>DisturbanceConfig.ts\<close> (headed
  \<^verbatim>\<open>DroneSimu.tsx\<close>) is \<open>simu_updatePhysics\<close>, the one of \<^verbatim>\<open>DorneSim.tsx\<close> is
  \<open>drone_updatePhysics\<close>. \<^verbatim>\<open>Position\<close> and \<^verbatim>\<open>Velocity\<close> both have the fields
  \<^verbatim>\<open>x, y\<close>: they are \<open>pos_x, pos_y\<close> and \<open>vel_x, vel_y\<close> here. The records take
  the type of their numbers as a parameter: the first component reads its thrusts from
  two sliders and divides by constants only, so it stays finite and its numbers are
  reals; the second feeds the outputs of three reusable controllers into the thrusts,
  so its numbers are of type \<open>number\<close>.
\<close>

record 'n Position =
  pos_x :: 'n
  pos_y :: 'n

record 'n Velocity =
  vel_x :: 'n
  vel_y :: 'n

record 'n PhysicsState =
  position :: "'n Position"
  velocity :: "'n Velocity"
  rotation :: 'n
  angularVelocity :: 'n

record 'n PhysicsParams =
  GRAVITY :: 'n
  MASS :: 'n
  MOMENT_OF_INERTIA :: 'n
  DRAG_COEFFICIENT :: 'n
  ANGULAR_DRAG_COEFFICIENT :: 'n
  THRUST_DISTANCE :: 'n

record 'n PhysicsParamsExt = "'n PhysicsParams" +
  CENTER_OF_MASS_OFFSET :: 'n
  LEFT_THRUST_EFFICIENCY :: 'n
  RIGHT_THRUST_EFFICIENCY :: 'n

subsection \<open>The component with manual thrust (\<^verbatim>\<open>DisturbanceConfig.ts\<close>)\<close>

definition PHYSICS_PARAMS :: "real PhysicsParams" where
  "PHYSICS_PARAMS =
     \<lparr>GRAVITY = 9.8, MASS = 1.0, MOMENT_OF_INERTIA = 0.1, DRAG_COEFFICIENT = 0.1,
      ANGULAR_DRAG_COEFFICIENT = 0.5, THRUST_DISTANCE = 0.4\<rparr>"

text \<open>The first line of \<^verbatim>\<open>updatePhysics\<close>: \<^verbatim>\<open>const dt = deltaTime / 100\<close>.\<close>

definition dt_of :: "real \<Rightarrow> real" where
  "dt_of deltaTime = deltaTime / 100"

text \<open>
  The last lines of \<^verbatim>\<open>updatePhysics\<close>, from the unclamped values
  (\<^verbatim>\<open>newPositionX\<close>, \<^verbatim>\<open>newVelocityX\<close>, ...) to the state that is stored.
\<close>

definition boundary :: "real PhysicsState \<Rightarrow> real PhysicsState" where
  "boundary new =
     (let newPositionY = pos_y (position new); newPositionX = pos_x (position new);
          newVelocityY = vel_y (velocity new); newVelocityX = vel_x (velocity new);
          finalPositionY = min (max newPositionY 10) 290;
          finalPositionX = min (max newPositionX 10) 590;
          finalVelocityY = (if finalPositionY = 10 \<or> finalPositionY = 290 then 0 else newVelocityY);
          finalVelocityX = (if finalPositionX = 10 \<or> finalPositionX = 590 then 0 else newVelocityX)
      in \<lparr>position = \<lparr>pos_x = finalPositionX, pos_y = finalPositionY\<rparr>,
          velocity = \<lparr>vel_x = finalVelocityX, vel_y = finalVelocityY\<rparr>,
          rotation = rotation new, angularVelocity = angularVelocity new\<rparr>)"

text \<open>The integration up to \<^verbatim>\<open>newPositionX\<close>, then the boundary.\<close>

definition simu_integrate ::
  "real \<Rightarrow> real \<Rightarrow> real \<Rightarrow> real PhysicsState \<Rightarrow> real PhysicsState" where
  "simu_integrate deltaTime leftThrust rightThrust physicsState =
     (let dt = dt_of deltaTime;
          params = PHYSICS_PARAMS;
          totalThrust = leftThrust + rightThrust;
          torque = (rightThrust - leftThrust) * THRUST_DISTANCE params;
          angularAcceleration =
            (torque - ANGULAR_DRAG_COEFFICIENT params * angularVelocity physicsState)
            / MOMENT_OF_INERTIA params;
          newAngularVelocity = angularVelocity physicsState + angularAcceleration * dt;
          newRotation = rotation physicsState + newAngularVelocity * dt;
          thrustForceY = totalThrust * cos (rotation physicsState);
          thrustForceX = totalThrust * sin (rotation physicsState);
          gravityForce = MASS params * GRAVITY params;
          verticalDragForce = DRAG_COEFFICIENT params * vel_y (velocity physicsState)
                              * \<bar>vel_y (velocity physicsState)\<bar>;
          verticalAcceleration = (thrustForceY - gravityForce - verticalDragForce) / MASS params;
          horizontalDragForce = DRAG_COEFFICIENT params * vel_x (velocity physicsState)
                                * \<bar>vel_x (velocity physicsState)\<bar>;
          horizontalAcceleration = (thrustForceX - horizontalDragForce) / MASS params;
          newVelocityY = vel_y (velocity physicsState) + verticalAcceleration * dt;
          newVelocityX = vel_x (velocity physicsState) + horizontalAcceleration * dt;
          newPositionY = pos_y (position physicsState) - newVelocityY * dt;
          newPositionX = pos_x (position physicsState) + newVelocityX * dt
      in \<lparr>position = \<lparr>pos_x = newPositionX, pos_y = newPositionY\<rparr>,
          velocity = \<lparr>vel_x = newVelocityX, vel_y = newVelocityY\<rparr>,
          rotation = newRotation, angularVelocity = newAngularVelocity\<rparr>)"

definition simu_updatePhysics ::
  "real \<Rightarrow> real \<Rightarrow> real \<Rightarrow> real PhysicsState \<Rightarrow> real PhysicsState" where
  "simu_updatePhysics deltaTime leftThrust rightThrust physicsState =
     boundary (simu_integrate deltaTime leftThrust rightThrust physicsState)"

subsection \<open>The component with controllers and disturbances (\<^verbatim>\<open>DorneSim.tsx\<close>)\<close>

definition DEFAULT_PHYSICS_PARAMS :: "number PhysicsParamsExt" where
  "DEFAULT_PHYSICS_PARAMS =
     \<lparr>GRAVITY = Fin 9.8, MASS = Fin 1.0, MOMENT_OF_INERTIA = Fin 0.1,
      DRAG_COEFFICIENT = Fin 0.1, ANGULAR_DRAG_COEFFICIENT = Fin 0.5,
      THRUST_DISTANCE = Fin 0.4, CENTER_OF_MASS_OFFSET = Fin 0.0,
      LEFT_THRUST_EFFICIENCY = Fin 1.0, RIGHT_THRUST_EFFICIENCY = Fin 1.0\<rparr>"

text \<open>The first line of \<^verbatim>\<open>updatePhysics\<close>: \<^verbatim>\<open>const dt = deltaTime / 100\<close>.\<close>

definition drone_dt :: "number \<Rightarrow> number" where
  "drone_dt deltaTime = deltaTime / Fin 100"

text \<open>
  The disturbance generator. \<^verbatim>\<open>Math.random()\<close> is a supply of finite draws read in
  order; \<^verbatim>\<open>windStateRef\<close> is the state the generator keeps.
\<close>

record Rng =
  draws :: "nat \<Rightarrow> real"
  cursor :: nat

definition Math_random :: "Rng \<Rightarrow> number \<times> Rng" where
  "Math_random g = (Fin (draws g (cursor g)), g\<lparr>cursor := cursor g + 1\<rparr>)"

record WindDisturbance =
  wind_enabled :: bool
  baseSpeed :: number
  gustFrequency :: number
  gustMagnitude :: number
  turbulenceIntensity :: number

record ThrustNoise =
  thrust_enabled :: bool
  magnitude :: number
  frequency :: number

record DisturbanceConfig =
  wind :: WindDisturbance
  thrust :: ThrustNoise

record WindState =
  time :: number
  currentGust :: number

record Disturbances =
  windForce :: number
  noise_left :: number
  noise_right :: number

definition calculateDisturbances ::
  "DisturbanceConfig \<Rightarrow> number \<Rightarrow> WindState \<times> Rng \<Rightarrow> Disturbances \<times> WindState \<times> Rng" where
  "calculateDisturbances disturbanceConfig deltaTime sg =
     (let w = wind disturbanceConfig; th = thrust disturbanceConfig;
          windState = fst sg; g = snd sg;
          (force0, windState1, g1) =
            (if wind_enabled w then
               let windState' = windState\<lparr>time := time windState + deltaTime\<rparr>;
                   gustPhase = Fin 2 * Fin pi * gustFrequency w * time windState';
                   gustEffect = Math_sin gustPhase * gustMagnitude w;
                   (u, g') = Math_random g;
                   turbulence = (u - Fin 0.5) * Fin 2 * turbulenceIntensity w
               in (baseSpeed w + (gustEffect + turbulence), windState', g')
             else (Fin 0, windState, g));
          (noiseL, noiseR, g2) =
            (if thrust_enabled th then
               let (u1, g') = Math_random g1;
                   noiseLeft = Fin 1 + (u1 - Fin 0.5) * Fin 2 * magnitude th;
                   (u2, g'') = Math_random g';
                   noiseRight = Fin 1 + (u2 - Fin 0.5) * Fin 2 * magnitude th
               in (noiseLeft, noiseRight, g'')
             else (Fin 1, Fin 1, g1))
      in (\<lparr>windForce = force0, noise_left = noiseL, noise_right = noiseR\<rparr>, windState1, g2))"

text \<open>
  The integration of \<^verbatim>\<open>updatePhysics\<close>, from the thrusts that its first part has
  settled and the disturbances up to \<^verbatim>\<open>newPositionX\<close>.
\<close>

definition drone_integrate ::
  "number \<Rightarrow> number \<Rightarrow> number \<Rightarrow> Disturbances \<Rightarrow> number PhysicsState
     \<Rightarrow> number PhysicsState" where
  "drone_integrate dt currentLeftThrust currentRightThrust d physicsState =
     (let params = DEFAULT_PHYSICS_PARAMS;
          effectiveLeftThrust = currentLeftThrust * LEFT_THRUST_EFFICIENCY params * noise_left d;
          effectiveRightThrust = currentRightThrust * RIGHT_THRUST_EFFICIENCY params * noise_right d;
          totalThrust = effectiveLeftThrust + effectiveRightThrust;
          torque = effectiveRightThrust * (THRUST_DISTANCE params + CENTER_OF_MASS_OFFSET params)
                   - effectiveLeftThrust * (THRUST_DISTANCE params - CENTER_OF_MASS_OFFSET params);
          angularAcceleration =
            (torque - ANGULAR_DRAG_COEFFICIENT params * angularVelocity physicsState)
            / MOMENT_OF_INERTIA params;
          newAngularVelocity = angularVelocity physicsState + angularAcceleration * dt;
          newRotation = rotation physicsState + newAngularVelocity * dt;
          thrustForceY = totalThrust * Math_cos (rotation physicsState);
          thrustForceX = totalThrust * Math_sin (rotation physicsState) + windForce d;
          gravityForce = MASS params * GRAVITY params;
          dragForceY = DRAG_COEFFICIENT params * vel_y (velocity physicsState)
                       * Math_abs (vel_y (velocity physicsState));
          dragForceX = DRAG_COEFFICIENT params * vel_x (velocity physicsState)
                       * Math_abs (vel_x (velocity physicsState));
          verticalAcceleration = (thrustForceY - gravityForce - dragForceY) / MASS params;
          horizontalAcceleration = (thrustForceX - dragForceX) / MASS params;
          newVelocityY = vel_y (velocity physicsState) + verticalAcceleration * dt;
          newVelocityX = vel_x (velocity physicsState) + horizontalAcceleration * dt;
          newPositionY = pos_y (position physicsState) - newVelocityY * dt;
          newPositionX = pos_x (position physicsState) + newVelocityX * dt
      in \<lparr>position = \<lparr>pos_x = newPositionX, pos_y = newPositionY\<rparr>,
          velocity = \<lparr>vel_x = newVelocityX, vel_y = newVelocityY\<rparr>,
          rotation = newRotation, angularVelocity = newAngularVelocity\<rparr>)"

text \<open>The boundary, from the unclamped values to the state that is stored.\<close>

definition drone_boundary :: "number PhysicsState \<Rightarrow> number PhysicsState" where
  "drone_boundary new =
     (let newPositionY = pos_y (position new); newPositionX = pos_x (position new);
          newVelocityY = vel_y (velocity new); newVelocityX = vel_x (velocity new);
          finalPositionY = Math_min (Math_max newPositionY (Fin 10)) (Fin 290);
          finalPositionX = Math_min (Math_max newPositionX (Fin 10)) (Fin 590);
          finalVelocityY =
            (if strict_eq finalPositionY (Fin 10) \<or> strict_eq finalPositionY (Fin 290)
             then Fin 0 else newVelocityY);
          finalVelocityX =
            (if strict_eq finalPositionX (Fin 10) \<or> strict_eq finalPositionX (Fin 590)
             then Fin 0 else newVelocityX)
      in \<lparr>position = \<lparr>pos_x = finalPositionX, pos_y = finalPositionY\<rparr>,
          velocity = \<lparr>vel_x = finalVelocityX, vel_y = finalVelocityY\<rparr>,
          rotation = rotation new, angularVelocity = angularVelocity new\<rparr>)"

text \<open>
  The state of the component: the physics state, the two slider thrusts, the
  disturbance configuration, the flag \<^verbatim>\<open>pidConfig.enabled\<close>, the three controllers
  (whose gains the sliders set through \<^verbatim>\<open>setGains\<close>), the wind state and the
  random supply.
\<close>

record DroneSimulator =
  physicsState :: "number PhysicsState"
  leftThrust :: number
  rightThrust :: number
  disturbanceConfig :: DisturbanceConfig
  pid_enabled :: bool
  attitudePIDRef :: PIDController
  horizontalPositionPIDRef :: PIDController
  verticalPositionPIDRef :: PIDController
  windStateRef :: WindState
  random :: Rng

text \<open>
  The first part of \<^verbatim>\<open>updatePhysics\<close> settles the thrusts: with the controllers enabled,
  the vertical and the horizontal position loop, the attitude loop on the negated
  horizontal output, the mixing and the limiter; otherwise the slider values. The
  controllers keep what \<^verbatim>\<open>update\<close> wrote into them.
\<close>

record Control =
  currentLeftThrust :: number
  currentRightThrust :: number
  attitude' :: PIDController
  horizontal' :: PIDController
  vertical' :: PIDController

definition drone_control :: "number \<Rightarrow> DroneSimulator \<Rightarrow> Control" where
  "drone_control dt sim =
     (if pid_enabled sim then
        let targetX = Fin 300;
            targetY = Fin 150;
            (verticalControl, v) =
              update (verticalPositionPIDRef sim) targetY (pos_y (position (physicsState sim))) dt;
            (horizontalControl, h) =
              update (horizontalPositionPIDRef sim) targetX (pos_x (position (physicsState sim))) dt;
            targetRotation = - horizontalControl;
            (attitudeControl, a) =
              update (attitudePIDRef sim) targetRotation (rotation (physicsState sim)) dt;
            baseThrust = Fin 4.9;
            left = baseThrust + verticalControl + attitudeControl;
            right = baseThrust + verticalControl - attitudeControl
        in \<lparr>currentLeftThrust = Math_min (Math_max left (Fin 0)) (Fin 100),
            currentRightThrust = Math_min (Math_max right (Fin 0)) (Fin 100),
            attitude' = a, horizontal' = h, vertical' = v\<rparr>
      else
        \<lparr>currentLeftThrust = leftThrust sim, currentRightThrust = rightThrust sim,
         attitude' = attitudePIDRef sim, horizontal' = horizontalPositionPIDRef sim,
         vertical' = verticalPositionPIDRef sim\<rparr>)"

text \<open>
  The whole tick: the thrusts, the disturbances, the integration, the boundary.
\<close>

definition drone_updatePhysics :: "number \<Rightarrow> DroneSimulator \<Rightarrow> DroneSimulator" where
  "drone_updatePhysics deltaTime sim =
     (let dt = drone_dt deltaTime;
          c = drone_control dt sim;
          (d, windState', g') =
            calculateDisturbances (disturbanceConfig sim) deltaTime (windStateRef sim, random sim)
      in sim\<lparr>physicsState :=
               drone_boundary (drone_integrate dt (currentLeftThrust c) (currentRightThrust c) d
                                 (physicsState sim)),
             attitudePIDRef := attitude' c,
             horizontalPositionPIDRef := horizontal' c,
             verticalPositionPIDRef := vertical' c,
             windStateRef := windState',
             random := g'\<rparr>)"

section \<open>Concrete configurations and states\<close>

text \<open>
  The attitude controller as \<^verbatim>\<open>DorneSim.tsx\<close> constructs it, after the integral-gain
  slider (whose minimum is 0) has been moved to zero.
\<close>

definition attitude_ki_zero :: PIDController where
  "attitude_ki_zero =
     setGains (new_PIDController (Fin 8.0) (Fin 0.5) (Fin 0.0) (Fin (- 1)) (Fin 1))
       (Fin 8.0) (Fin 0) (Fin 0.0)"

definition proportional_only :: PIDController where
  "proportional_only = new_PIDController (Fin 8) (Fin 0) (Fin 0) (Fin (- 1)) (Fin 1)"

text \<open>The initial values of \<^verbatim>\<open>CartPole.tsx\<close>, and a cart about to leave the track.\<close>

definition initial_pid :: CartPID where
  "initial_pid = \<lparr>pid_target = 0, pid_kp = 30, pid_ki = 0.1, pid_kd = 10,
                   pid_integral = 0, pid_lastError = 0\<rparr>"

definition tilted :: CartPoleState where
  "tilted = \<lparr>st_x = 0, st_theta = 0.1, st_dx = 0, st_dtheta = 0, st_score = 0\<rparr>"

definition initial_sim :: CartPoleSimulator where
  "initial_sim =
     \<lparr>state = tilted, pidController = initial_pid, isRunning = True, force = 0,
      isAutoPilot = False\<rparr>"

definition halting_sim :: CartPoleSimulator where
  "halting_sim =
     \<lparr>state = \<lparr>st_x = 2.39, st_theta = 0, st_dx = 1, st_dtheta = 0, st_score = 5\<rparr>,
      pidController = initial_pid, isRunning = True, force = 0, isAutoPilot = False\<rparr>"

text \<open>States of the component with manual thrust.\<close>

definition hover :: "real PhysicsState" where
  "hover = \<lparr>position = \<lparr>pos_x = 100, pos_y = 150\<rparr>, velocity = \<lparr>vel_x = 0, vel_y = 0\<rparr>,
             rotation = 0, angularVelocity = 0\<rparr>"

definition far_corner :: "real PhysicsState" where
  "far_corner = \<lparr>position = \<lparr>pos_x = 589.9, pos_y = 289.9\<rparr>,
                  velocity = \<lparr>vel_x = 10, vel_y = - 10\<rparr>, rotation = 0, angularVelocity = 0\<rparr>"

definition near_corner :: "real PhysicsState" where
  "near_corner = \<lparr>position = \<lparr>pos_x = 10.1, pos_y = 10.1\<rparr>,
                   velocity = \<lparr>vel_x = - 10, vel_y = 10\<rparr>, rotation = 0, angularVelocity = 0\<rparr>"

text \<open>
  The default disturbance configuration of \<^verbatim>\<open>DorneSim.tsx\<close> and two others, a
  random supply, and the component as it starts: default gains, controllers enabled.
\<close>

definition DEFAULT_DISTURBANCE_CONFIG :: DisturbanceConfig where
  "DEFAULT_DISTURBANCE_CONFIG =
     \<lparr>wind = \<lparr>wind_enabled = True, baseSpeed = Fin 0.0, gustFrequency = Fin 0.0,
              gustMagnitude = Fin 0.0, turbulenceIntensity = Fin 0.0\<rparr>,
      thrust = \<lparr>thrust_enabled = True, magnitude = Fin 0.00, frequency = Fin 10\<rparr>\<rparr>"

definition windy_config :: DisturbanceConfig where
  "windy_config =
     \<lparr>wind = \<lparr>wind_enabled = True, baseSpeed = Fin 0.5, gustFrequency = Fin (1 / 64),
              gustMagnitude = Fin 2, turbulenceIntensity = Fin 0.1\<rparr>,
      thrust = \<lparr>thrust_enabled = True, magnitude = Fin 0.1, frequency = Fin 10\<rparr>\<rparr>"

definition disabled_config :: DisturbanceConfig where
  "disabled_config =
     \<lparr>wind = \<lparr>wind_enabled = False, baseSpeed = Fin 0.5, gustFrequency = Fin 0.2,
              gustMagnitude = Fin 1.0, turbulenceIntensity = Fin 0.1\<rparr>,
      thrust = \<lparr>thrust_enabled = False, magnitude = Fin 0.1, frequency = Fin 10\<rparr>\<rparr>"

definition middle_draws :: Rng where
  "middle_draws = \<lparr>draws = (\<lambda>n. 1 / 2), cursor = 0\<rparr>"

definition upper_draws :: Rng where
  "upper_draws = \<lparr>draws = (\<lambda>n. 3 / 4), cursor = 0\<rparr>"

definition calm :: Disturbances where
  "calm = \<lparr>windForce = Fin 0, noise_left = Fin 1, noise_right = Fin 1\<rparr>"

definition drone_hover :: "number PhysicsState" where
  "drone_hover = \<lparr>position = \<lparr>pos_x = Fin 100, pos_y = Fin 150\<rparr>,
                   velocity = \<lparr>vel_x = Fin 0, vel_y = Fin 0\<rparr>,
                   rotation = Fin 0, angularVelocity = Fin 0\<rparr>"

definition initial_drone :: DroneSimulator where
  "initial_drone =
     \<lparr>physicsState = drone_hover, leftThrust = Fin 4.9, rightThrust = Fin 4.9,
      disturbanceConfig = DEFAULT_DISTURBANCE_CONFIG, pid_enabled = True,
      attitudePIDRef = new_PIDController (Fin 8.0) (Fin 0.5) (Fin 0.0) (Fin (- 1)) (Fin 1),
      horizontalPositionPIDRef =
        new_PIDController (Fin 1.0) (Fin 0.05) (Fin 0.0) (Fin (- pi / 6)) (Fin (pi / 6)),
      verticalPositionPIDRef = new_PIDController (Fin 1.5) (Fin 0.05) (Fin 0.0) (Fin (- 2)) (Fin 2),
      windStateRef = \<lparr>time = Fin 0, currentGust = Fin 0\<rparr>, random = middle_draws\<rparr>"

text \<open>The same component after the integral-gain slider of the attitude loop went to 0.\<close>

definition drone_ki_zero :: DroneSimulator where
  "drone_ki_zero = initial_drone\<lparr>attitudePIDRef := attitude_ki_zero\<rparr>"

text \<open>The component flown by hand, about to leave the field at the far corner.\<close>

definition drone_far_corner :: DroneSimulator where
  "drone_far_corner =
     initial_drone\<lparr>pid_enabled := False,
       physicsState := \<lparr>position = \<lparr>pos_x = Fin 589.9, pos_y = Fin 289.9\<rparr>,
                        velocity = \<lparr>vel_x = Fin 10, vel_y = Fin (- 10)\<rparr>,
                        rotation = Fin 0, angularVelocity = Fin 0\<rparr>\<rparr>"

section \<open>Arithmetic with the special values\<close>

lemma number_NaN_absorb [simp]:
  "a + NaN = NaN" "NaN + a = NaN" "a - NaN = NaN" "NaN - a = NaN"
  "a * NaN = NaN" "NaN * a = NaN" "a / NaN = NaN" "NaN / a = NaN"
  "Math_max a NaN = NaN" "Math_max NaN a = NaN" "Math_min a NaN = NaN" "Math_min NaN a = NaN"
  "\<not> strict_eq NaN a" "\<not> strict_eq a NaN"
  by (cases a; simp add: minus_number_def)+

lemma number_unit [simp]: "a * Fin 1 = a" "Fin 1 * a = a" "a / Fin 1 = a"
  by (cases a; simp)+

lemma number_add_commute: "a + b = b + (a::number)"
  by (cases a; cases b; simp)

lemma number_add_assoc: "(a + b) + c = a + (b + (c::number))"
  by (cases a; cases b; cases c; simp)

lemma number_mult_commute: "a * b = b * (a::number)"
  by (cases a; cases b; simp)

lemma number_hundredth [simp]: "Fin 100 * (a / Fin 100) = a"
  by (cases a) simp_all

section \<open>The reusable PID controller: results\<close>

text \<open>
  C1. With \<open>ki = 0\<close> the claim has \<^verbatim>\<open>update\<close> skip the anti-windup clamp and keep a
  finite integral. The code divides by \<open>ki\<close> all the same: for the attitude controller
  with its integral gain at zero, a setpoint of \<open>-1/2\<close>, a measured rotation of \<open>0\<close>
  and a step of \<open>0.16\<close>, both limits of the integral are \<open>+Infinity\<close>, the stored integral
  is \<open>+Infinity\<close> instead of \<open>-0.08\<close>, and the returned output is \<open>NaN\<close>.
\<close>

theorem update_ki_zero_integral_infinite:
  "integral (snd (update attitude_ki_zero (Fin (- 1 / 2)) (Fin 0) (Fin (4 / 25)))) = PosInfinity
   \<and> integral attitude_ki_zero + (Fin (- 1 / 2) - Fin 0) * Fin (4 / 25) = Fin (- 2 / 25)
   \<and> \<not> isFinite (integral (snd (update attitude_ki_zero (Fin (- 1 / 2)) (Fin 0) (Fin (4 / 25)))))
   \<and> fst (update attitude_ki_zero (Fin (- 1 / 2)) (Fin 0) (Fin (4 / 25))) = NaN"
  by (simp add: attitude_ki_zero_def update_def setGains_def new_PIDController_def Let_def
      minus_number_def)

text \<open>
  C5. With \<open>ki = 0\<close> and \<open>kd = 0\<close> the claim has \<^verbatim>\<open>update\<close> return the clamped
  proportional term. On a fresh controller with \<open>kp = 8\<close> and the bounds \<open>[-1, 1]\<close>,
  a setpoint of \<open>1\<close>, a measured value of \<open>0\<close> and a step of \<open>0.02\<close>, the clamped
  proportional term is \<open>1\<close> and the code returns \<open>NaN\<close>.
\<close>

theorem update_ki_kd_zero_saturated_NaN:
  "fst (update proportional_only (Fin 1) (Fin 0) (Fin (1 / 50))) = NaN
   \<and> Math_min (Math_max (kp proportional_only * (Fin 1 - Fin 0)) (outputMin proportional_only))
        (outputMax proportional_only) = Fin 1"
  by (simp add: proportional_only_def update_def new_PIDController_def Let_def minus_number_def)

text \<open>
  The same happens at every finite state as soon as the proportional term exceeds the
  upper bound: both quotients are \<open>-Infinity\<close>.
\<close>

lemma update_ki_zero_saturated:
  assumes "ki c = Fin 0" "kp c = Fin p" "kd c = Fin d"
    and "outputMin c = Fin lo" "outputMax c = Fin hi"
    and "integral c = Fin i" "prevError c = Fin e0" "0 < dt"
    and "hi < p * (sp - m)" "lo \<le> hi"
  shows "integral (snd (update c (Fin sp) (Fin m) (Fin dt))) = NegInfinity"
    and "fst (update c (Fin sp) (Fin m) (Fin dt)) = NaN"
  using assms by (simp_all add: update_def Let_def minus_number_def)

text \<open>
  Where the proportional term lies strictly between the two bounds, the quotients are
  the two infinities of opposite sign and the output is the proportional term.
\<close>

lemma update_proportional_inside:
  assumes "ki c = Fin 0" "kd c = Fin 0" "kp c = Fin p"
    and "outputMin c = Fin lo" "outputMax c = Fin hi"
    and "integral c = Fin i" "prevError c = Fin e0" "0 < dt"
    and "lo < p * (sp - m)" "p * (sp - m) < hi"
  shows "fst (update c (Fin sp) (Fin m) (Fin dt)) = Fin (p * (sp - m))"
  using assms by (simp add: update_def Let_def minus_number_def)

text \<open>
  C8. \<^verbatim>\<open>reset\<close> zeroes the integral and the previous error (and clears the unused
  \<^verbatim>\<open>lastTime\<close>) and keeps the gains and the bounds; \<^verbatim>\<open>setGains\<close> replaces the
  three gains and keeps everything else; a controller that was reset is the controller
  a fresh construction with the same gains and bounds gives, so that \<^verbatim>\<open>update\<close> returns
  the same output (and leaves the same state) on both.
\<close>

theorem reset_setGains_frame:
  "reset c = c\<lparr>prevError := Fin 0, integral := Fin 0, lastTime := None\<rparr>
   \<and> kp (reset c) = kp c \<and> ki (reset c) = ki c \<and> kd (reset c) = kd c
   \<and> outputMin (reset c) = outputMin c \<and> outputMax (reset c) = outputMax c
   \<and> integral (reset c) = Fin 0 \<and> prevError (reset c) = Fin 0
   \<and> setGains c p i d = c\<lparr>kp := p, ki := i, kd := d\<rparr>
   \<and> kp (setGains c p i d) = p \<and> ki (setGains c p i d) = i \<and> kd (setGains c p i d) = d
   \<and> integral (setGains c p i d) = integral c \<and> prevError (setGains c p i d) = prevError c
   \<and> lastTime (setGains c p i d) = lastTime c
   \<and> outputMin (setGains c p i d) = outputMin c \<and> outputMax (setGains c p i d) = outputMax c
   \<and> reset c = new_PIDController (kp c) (ki c) (kd c) (outputMin c) (outputMax c)
   \<and> update (reset c) setpoint measured dt
       = update (new_PIDController (kp c) (ki c) (kd c) (outputMin c) (outputMax c))
           setpoint measured dt"
proof -
  have fresh: "reset c = new_PIDController (kp c) (ki c) (kd c) (outputMin c) (outputMax c)"
    by (cases c) (simp add: reset_def new_PIDController_def)
  have frame: "reset c = c\<lparr>prevError := Fin 0, integral := Fin 0, lastTime := None\<rparr>"
    "kp (reset c) = kp c" "ki (reset c) = ki c" "kd (reset c) = kd c"
    "outputMin (reset c) = outputMin c" "outputMax (reset c) = outputMax c"
    "integral (reset c) = Fin 0" "prevError (reset c) = Fin 0"
    by (simp_all add: reset_def)
  have gains: "setGains c p i d = c\<lparr>kp := p, ki := i, kd := d\<rparr>"
    "kp (setGains c p i d) = p" "ki (setGains c p i d) = i" "kd (setGains c p i d) = d"
    "integral (setGains c p i d) = integral c" "prevError (setGains c p i d) = prevError c"
    "lastTime (setGains c p i d) = lastTime c"
    "outputMin (setGains c p i d) = outputMin c" "outputMax (setGains c p i d) = outputMax c"
    by (simp_all add: setGains_def)
  from fresh have "update (reset c) setpoint measured dt
       = update (new_PIDController (kp c) (ki c) (kd c) (outputMin c) (outputMax c))
           setpoint measured dt"
    by (rule arg_cong)
  with fresh frame gains show ?thesis by blast
qed


section \<open>The cart-pole: results\<close>

subsection \<open>The remainder and the wrapped angle\<close>

lemma js_rem_nonneg:
  assumes "0 \<le> a" "0 < b"
  shows "0 \<le> js_rem a b" "js_rem a b < b"
proof -
  have q: "0 \<le> a / b" using assms by simp
  have f1: "of_int \<lfloor>a / b\<rfloor> \<le> a / b" by (rule of_int_floor_le)
  have f2: "a / b < of_int \<lfloor>a / b\<rfloor> + 1" by linarith
  have m1: "b * of_int \<lfloor>a / b\<rfloor> \<le> a"
    using mult_left_mono[OF f1, of b] assms(2) by simp
  have m2: "a < b * (of_int \<lfloor>a / b\<rfloor> + 1)"
    using mult_strict_left_mono[OF f2, of b] assms(2) by simp
  show "0 \<le> js_rem a b" using q m1 by (simp add: js_rem_def trunc_def)
  show "js_rem a b < b" using q m2 by (simp add: js_rem_def trunc_def algebra_simps)
qed

lemma js_rem_neg:
  assumes "a < 0" "0 < b"
  shows "- b < js_rem a b" "js_rem a b \<le> 0"
proof -
  have q: "\<not> 0 \<le> a / b" using assms by (simp add: divide_less_0_iff not_le)
  have f1: "a / b \<le> of_int \<lceil>a / b\<rceil>" by (rule le_of_int_ceiling)
  have f2: "of_int \<lceil>a / b\<rceil> - 1 < a / b" by linarith
  have m1: "a \<le> b * of_int \<lceil>a / b\<rceil>"
    using mult_left_mono[OF f1, of b] assms(2) by simp
  have m2: "b * (of_int \<lceil>a / b\<rceil> - 1) < a"
    using mult_strict_left_mono[OF f2, of b] assms(2) by simp
  show "js_rem a b \<le> 0" using q m1 by (simp add: js_rem_def trunc_def)
  show "- b < js_rem a b" using q m2 by (simp add: js_rem_def trunc_def algebra_simps)
qed

lemma js_rem_bounds: "0 < b \<Longrightarrow> - b < js_rem a b \<and> js_rem a b < b"
  using js_rem_nonneg[of a b] js_rem_neg[of a b] by (cases "0 \<le> a") auto

lemma js_rem_small:
  assumes "0 \<le> a" "a < b"
  shows "js_rem a b = a"
proof -
  have "0 \<le> a / b" "a / b < 1" using assms by simp_all
  then have "\<lfloor>a / b\<rfloor> = 0" by linarith
  then show ?thesis using \<open>0 \<le> a / b\<close> by (simp add: js_rem_def trunc_def)
qed

lemma js_rem_small_neg:
  assumes "a < 0" "- b < a"
  shows "js_rem a b = a"
proof -
  have b: "0 < b" using assms by linarith
  then have "a / b < 0" "- 1 < a / b"
    using assms by (simp_all add: divide_less_0_iff pos_less_divide_eq)
  then have "\<lceil>a / b\<rceil> = 0" "\<not> 0 \<le> a / b" by linarith+
  then show ?thesis by (simp add: js_rem_def trunc_def)
qed

lemma js_rem_shift:
  assumes "0 \<le> a" "a < b"
  shows "js_rem (a + b) b = a"
proof -
  have b: "0 < b" using assms by linarith
  have "(a + b) / b = a / b + 1" using b by (simp add: add_divide_distrib)
  moreover have "0 \<le> a / b" "a / b < 1" using assms b by simp_all
  ultimately have "\<lfloor>(a + b) / b\<rfloor> = 1" "0 \<le> (a + b) / b" by linarith+
  then show ?thesis by (simp add: js_rem_def trunc_def)
qed

lemma js_rem_congr: "\<exists>k::int. js_rem a b = a + b * of_int k"
  by (rule exI[of _ "- trunc (a / b)"]) (simp add: js_rem_def)

lemma normalizeAngle_range: "- pi < normalizeAngle t \<and> normalizeAngle t \<le> pi"
proof -
  have b: "(0::real) < 2 * pi" by simp
  have "- (2 * pi) < js_rem t (2 * pi)" using js_rem_bounds[OF b, of t] by simp
  then have "0 \<le> js_rem t (2 * pi) + 2 * pi" by linarith
  from js_rem_nonneg[OF this b]
  show ?thesis by (simp add: normalizeAngle_def Let_def)
qed

lemma normalizeAngle_fixed:
  assumes "- pi < t" "t \<le> pi"
  shows "normalizeAngle t = t"
proof (cases "0 \<le> t")
  case True
  have lt: "t < 2 * pi" using assms pi_gt_zero by linarith
  have "js_rem t (2 * pi) = t" using True lt by (rule js_rem_small)
  moreover have "js_rem (t + 2 * pi) (2 * pi) = t" using True lt by (rule js_rem_shift)
  ultimately show ?thesis using assms by (simp add: normalizeAngle_def Let_def)
next
  case False
  then have n: "t < 0" by simp
  have "- (2 * pi) < t" using assms pi_gt_zero by linarith
  with n have e1: "js_rem t (2 * pi) = t" by (rule js_rem_small_neg)
  have "0 \<le> t + 2 * pi" "t + 2 * pi < 2 * pi" using assms n pi_gt_zero by linarith+
  then have e2: "js_rem (t + 2 * pi) (2 * pi) = t + 2 * pi" by (rule js_rem_small)
  have "t + 2 * pi > pi" using assms by linarith
  then show ?thesis using e1 e2 by (simp add: normalizeAngle_def Let_def)
qed

lemma normalizeAngle_congr: "\<exists>k::int. normalizeAngle t = t + 2 * pi * of_int k"
proof -
  let ?r = "js_rem t (2 * pi)"
  obtain k1 :: int where k1: "?r = t + 2 * pi * of_int k1"
    using js_rem_congr by blast
  obtain k2 :: int where k2: "js_rem (?r + 2 * pi) (2 * pi) = (?r + 2 * pi) + 2 * pi * of_int k2"
    using js_rem_congr by blast
  show ?thesis
  proof (cases "js_rem (?r + 2 * pi) (2 * pi) > pi")
    case True
    then have "normalizeAngle t = t + 2 * pi * of_int (k1 + k2)"
      using k1 k2 by (simp add: normalizeAngle_def Let_def algebra_simps)
    then show ?thesis by blast
  next
    case False
    then have "normalizeAngle t = t + 2 * pi * of_int (k1 + k2 + 1)"
      using k1 k2 by (simp add: normalizeAngle_def Let_def algebra_simps)
    then show ?thesis by blast
  qed
qed

lemma normalizeAngle_0: "normalizeAngle 0 = 0"
  by (rule normalizeAngle_fixed) simp_all

subsection \<open>The wrapped angle in double arithmetic\<close>

lemma round_even_bounds:
  "y - 1 / 2 \<le> of_int (round_even y)" "of_int (round_even y) \<le> y + 1 / 2"
  unfolding round_even_def Let_def by (auto; linarith)+

lemma round_even_of_int [simp]: "round_even (of_int m) = m"
  by (simp add: round_even_def)

lemma round_even_ge: "of_int m \<le> y \<Longrightarrow> m \<le> round_even y"
proof -
  assume "of_int m \<le> y"
  then have "m \<le> \<lfloor>y\<rfloor>" by (simp add: le_floor_iff)
  then show ?thesis unfolding round_even_def Let_def by auto
qed

lemma round_even_le: "y \<le> of_int m \<Longrightarrow> round_even y \<le> m"
proof -
  assume h: "y \<le> of_int m"
  show ?thesis
  proof (cases "y = of_int m")
    case True then show ?thesis by simp
  next
    case False
    with h have "y < of_int m" by simp
    then have "\<lfloor>y\<rfloor> < m" by (simp add: floor_less_iff)
    then show ?thesis unfolding round_even_def Let_def by auto
  qed
qed

lemma ulp_pos [simp]: "0 < ulp x"
  by (simp add: ulp_def)

lemma ulp_nonzero [simp]: "ulp x \<noteq> 0"
  by (simp add: ulp_def)

lemma ulp_nonneg [simp]: "0 \<le> ulp x"
  by (simp add: ulp_def)

lemma two_powr_int: "(2::real) powr (of_int k) = 2 powi k"
  by (simp add: powr_real_of_int')

lemma two_powr_int1: "(2::real) powr (of_int k + 1) = 2 powi (k + 1)"
  using two_powr_int[of "k + 1"] by simp

lemma binade_eq:
  assumes "2 powi k \<le> \<bar>x\<bar>" "\<bar>x\<bar> < 2 powi (k + 1)" "- 1022 \<le> k"
  shows "binade x = k"
proof -
  have "0 < (2::real) powi k" by simp
  with assms(1) have pos: "0 < \<bar>x\<bar>" by linarith
  have "2 powr (of_int k) \<le> \<bar>x\<bar>" "\<bar>x\<bar> < 2 powr (of_int k + 1)"
    using assms by (simp_all only: two_powr_int two_powr_int1)
  then have "\<lfloor>log 2 \<bar>x\<bar>\<rfloor> = k" using pos by (simp add: floor_log_eq_powr_iff)
  then show ?thesis using assms(3) by (simp add: binade_def)
qed

lemma binade_upper:
  assumes "x \<noteq> 0"
  shows "\<bar>x\<bar> < 2 powi (binade x + 1)"
proof -
  let ?k = "\<lfloor>log 2 \<bar>x\<bar>\<rfloor>"
  have pos: "0 < \<bar>x\<bar>" using assms by simp
  have "\<bar>x\<bar> < 2 powr (of_int ?k + 1)"
    using pos floor_log_eq_powr_iff[of "\<bar>x\<bar>" 2 ?k] by simp
  then have "\<bar>x\<bar> < 2 powi (?k + 1)"
    by (simp only: two_powr_int1)
  also have "\<dots> \<le> 2 powi (binade x + 1)"
    by (rule power_int_increasing) (simp_all add: binade_def)
  finally show ?thesis .
qed

lemma binade_le:
  assumes "x \<noteq> 0" "\<bar>x\<bar> < 2 powi (k + 1)" "- 1022 \<le> k"
  shows "binade x \<le> k"
proof -
  let ?k = "\<lfloor>log 2 \<bar>x\<bar>\<rfloor>"
  have pos: "0 < \<bar>x\<bar>" using assms by simp
  have "2 powr (of_int ?k) \<le> \<bar>x\<bar>"
    using pos floor_log_eq_powr_iff[of "\<bar>x\<bar>" 2 ?k] by simp
  then have "2 powi ?k \<le> \<bar>x\<bar>" by (simp only: two_powr_int)
  with assms(2) have "(2::real) powi ?k < 2 powi (k + 1)" by linarith
  then have "?k < k + 1"
    by (metis linorder_not_less power_int_increasing one_le_numeral)
  then show ?thesis using assms(3) by (simp add: binade_def)
qed

lemma binade_ge:
  assumes "2 powi k \<le> \<bar>x\<bar>"
  shows "k \<le> binade x"
proof -
  have "0 < (2::real) powi k" by simp
  with assms have "0 < \<bar>x\<bar>" by linarith
  then have pos: "x \<noteq> 0" by simp
  from binade_upper[OF pos] assms have "(2::real) powi k < 2 powi (binade x + 1)" by linarith
  then have "k < binade x + 1"
    by (metis linorder_not_less power_int_increasing one_le_numeral)
  then show ?thesis by simp
qed

lemma to_double_in_binade:
  assumes "2 powi k \<le> \<bar>x\<bar>" "\<bar>x\<bar> < 2 powi (k + 1)" "- 1022 \<le> k"
  shows "to_double x = of_int (round_even (x / 2 powi (k - 52))) * 2 powi (k - 52)"
proof -
  have "0 < (2::real) powi k" by simp
  with assms(1) have "0 < \<bar>x\<bar>" by linarith
  then have "x \<noteq> 0" by simp
  then show ?thesis by (simp add: to_double_def ulp_def binade_eq[OF assms])
qed

lemma to_double_exact:
  assumes "x = of_int m * 2 powi j" "binade x - 52 \<le> j"
  shows "to_double x = x"
proof (cases "x = 0")
  case True then show ?thesis by (simp add: to_double_def)
next
  case False
  let ?b = "binade x"
  have "x / ulp x = of_int m * (2 powi j / 2 powi (?b - 52))" by (simp add: assms(1) ulp_def)
  also have "2 powi j / 2 powi (?b - 52) = (2::real) powi (j - (?b - 52))"
    by (simp add: power_int_diff)
  also have "\<dots> = 2 ^ nat (j - (?b - 52))" using assms(2) by (simp add: power_int_def)
  finally have "x / ulp x = of_int (m * 2 ^ nat (j - (?b - 52)))" by simp
  then have "round_even (x / ulp x) = m * 2 ^ nat (j - (?b - 52))"
    by (simp only: round_even_of_int)
  then have "to_double x = of_int (m * 2 ^ nat (j - (?b - 52))) * ulp x"
    using False by (simp add: to_double_def)
  also have "\<dots> = (x / ulp x) * ulp x" using \<open>x / ulp x = of_int _\<close> by (simp only:)
  also have "\<dots> = x" by simp
  finally show ?thesis .
qed

lemma two_pi_binade: "binade (2 * Math_PI) = 2"
  by (rule binade_eq) (simp_all add: Math_PI_def)

lemma two_pi_double [simp]: "to_double (2 * Math_PI) = 2 * Math_PI"
proof -
  have g: "2 * Math_PI = of_int 884279719003555 * 2 powi (- 47)" by (simp add: Math_PI_def)
  have b: "binade (2 * Math_PI) - 52 \<le> - 47" by (simp add: two_pi_binade)
  from g b show ?thesis by (rule to_double_exact)
qed

lemma Math_PI_bounds: "3 < Math_PI" "Math_PI < 4"
  by (simp_all add: Math_PI_def)

lemma normalizeAngle_double_tenth:
  "normalizeAngle_double (3602879701896397 / 2 ^ 55) = 112589990684262 / 2 ^ 50"
proof -
  let ?t = "3602879701896397 / 2 ^ 55 :: real"
  let ?p2 = "2 * Math_PI"
  have r1: "js_rem ?t ?p2 = ?t" by (rule js_rem_small) (simp_all add: Math_PI_def)
  have y: "?t + ?p2 = 229978487766806477 / 2 ^ 55" by (simp add: Math_PI_def)
  have s: "to_double (229978487766806477 / 2 ^ 55) = 7186827742712702 / 2 ^ 50"
    by (subst to_double_in_binade[where k = 2]) (simp_all add: round_even_def)
  have n: "js_rem (7186827742712702 / 2 ^ 50) ?p2 = 112589990684262 / 2 ^ 50"
    using js_rem_shift[of "112589990684262 / 2 ^ 50" ?p2] by (simp add: Math_PI_def)
  have c: "\<not> 112589990684262 / 2 ^ 50 > Math_PI" by (simp add: Math_PI_def)
  show ?thesis
    by (simp only: normalizeAngle_double_def two_pi_double r1 y s n Let_def c if_False)
qed

lemma not_idempotent_values:
  "normalizeAngle_double (- 7881299347898369 / 2 ^ 51) = 6267176156158511 / 2 ^ 51"
  "normalizeAngle_double (6267176156158511 / 2 ^ 51) = 6267176156158512 / 2 ^ 51"
proof -
  let ?x = "- 7881299347898369 / 2 ^ 51 :: real"
  let ?y = "6267176156158511 / 2 ^ 51 :: real"
  let ?p2 = "2 * Math_PI"
  have r1: "js_rem ?x ?p2 = ?x" by (rule js_rem_small_neg) (simp_all add: Math_PI_def)
  have y: "?x + ?p2 = ?y" by (simp add: Math_PI_def)
  have by1: "binade ?y = 1" by (rule binade_eq) simp_all
  have gy: "?y = of_int 6267176156158511 * 2 powi (- 51)" by simp
  have s: "to_double ?y = ?y" by (rule to_double_exact[OF gy]) (simp only: by1)
  have n: "js_rem ?y ?p2 = ?y" by (rule js_rem_small) (simp_all add: Math_PI_def)
  have c: "\<not> ?y > Math_PI" by (simp add: Math_PI_def)
  show "normalizeAngle_double ?x = ?y"
    by (simp only: normalizeAngle_double_def two_pi_double r1 y s n Let_def c if_False)
  have y2: "?y + ?p2 = 20415651660215391 / 2 ^ 51" by (simp add: Math_PI_def)
  have s2: "to_double (20415651660215391 / 2 ^ 51) = 5103912915053848 / 2 ^ 49"
    by (subst to_double_in_binade[where k = 3]) (simp_all add: round_even_def)
  have n2: "js_rem (5103912915053848 / 2 ^ 49) ?p2 = 6267176156158512 / 2 ^ 51"
    using js_rem_shift[of "6267176156158512 / 2 ^ 51" ?p2] by (simp add: Math_PI_def)
  have c2: "\<not> 6267176156158512 / 2 ^ 51 > Math_PI" by (simp add: Math_PI_def)
  show "normalizeAngle_double ?y = 6267176156158512 / 2 ^ 51"
    by (simp only: normalizeAngle_double_def two_pi_double n y2 s2 n2 Let_def c2 if_False)
qed

lemma minus_pi_value: "normalizeAngle_double (- Math_PI) = Math_PI"
proof -
  let ?p2 = "2 * Math_PI"
  have r1: "js_rem (- Math_PI) ?p2 = - Math_PI"
    by (rule js_rem_small_neg) (simp_all add: Math_PI_def)
  have y: "- Math_PI + ?p2 = Math_PI" by simp
  have b: "binade Math_PI = 1" by (rule binade_eq) (simp_all add: Math_PI_def)
  have g: "Math_PI = of_int 884279719003555 * 2 powi (- 48)" by (simp add: Math_PI_def)
  have s: "to_double Math_PI = Math_PI" by (rule to_double_exact[OF g]) (simp only: b)
  have n: "js_rem Math_PI ?p2 = Math_PI" by (rule js_rem_small) (simp_all add: Math_PI_def)
  show ?thesis
    by (simp only: normalizeAngle_double_def two_pi_double r1 y s n Let_def less_irrefl if_False)
qed

lemma to_double_nonneg: "0 \<le> x \<Longrightarrow> 0 \<le> to_double x"
proof -
  assume h: "0 \<le> x"
  have "of_int 0 \<le> x / ulp x" using h by simp
  then have "0 \<le> round_even (x / ulp x)" by (rule round_even_ge)
  then show ?thesis by (simp add: to_double_def)
qed

lemma to_double_nonpos: "x \<le> 0 \<Longrightarrow> to_double x \<le> 0"
proof -
  assume h: "x \<le> 0"
  have "x / ulp x \<le> of_int 0" using h by (simp add: divide_le_0_iff)
  then have "round_even (x / ulp x) \<le> 0" by (rule round_even_le)
  then show ?thesis by (simp add: to_double_def mult_le_0_iff)
qed

lemma to_double_grid: "\<exists>m::int. to_double x = of_int m * 2 powi (binade x - 52)"
  by (cases "x = 0") (auto simp add: to_double_def ulp_def intro: exI[of _ 0])

lemma to_double_abs_le:
  assumes "x \<noteq> 0"
  shows "\<bar>to_double x\<bar> \<le> 2 powi (binade x + 1)"
proof -
  let ?u = "ulp x"
  have u: "2 powi (binade x + 1) = 2 ^ 53 * ?u"
  proof -
    have "binade x + 1 = 53 + (binade x - 52)" by simp
    then have "(2::real) powi (binade x + 1) = 2 powi (53 + (binade x - 52))" by (simp only:)
    also have "\<dots> = 2 powi 53 * 2 powi (binade x - 52)" by (rule power_int_add) simp
    finally show ?thesis by (simp add: ulp_def)
  qed
  have "\<bar>x\<bar> < 2 ^ 53 * ?u" using binade_upper[OF assms] u by simp
  then have "\<bar>x\<bar> / ?u < 2 ^ 53" by (simp add: pos_divide_less_eq)
  then have q: "\<bar>x / ?u\<bar> < 9007199254740992" by (simp add: abs_divide)
  have q1: "x / ?u \<le> 9007199254740992" using q by linarith
  have q2: "- 9007199254740992 \<le> x / ?u" using q by linarith
  have "x / ?u \<le> of_int 9007199254740992" using q1 by simp
  then have r1: "round_even (x / ?u) \<le> 9007199254740992" by (rule round_even_le)
  have "of_int (- 9007199254740992) \<le> x / ?u" using q2 by simp
  then have r2: "- 9007199254740992 \<le> round_even (x / ?u)" by (rule round_even_ge)
  have "\<bar>of_int (round_even (x / ?u)) :: real\<bar> \<le> 9007199254740992"
    using r1 r2 by (simp add: abs_le_iff)
  then have "\<bar>of_int (round_even (x / ?u)) :: real\<bar> * ?u \<le> 9007199254740992 * ?u"
    by (rule mult_right_mono) simp
  then have "\<bar>of_int (round_even (x / ?u)) * ?u\<bar> \<le> 2 ^ 53 * ?u"
    by (simp add: abs_mult)
  then show ?thesis using assms u by (simp add: to_double_def)
qed

lemma js_rem_le: 
  assumes "0 \<le> a" "0 < b"
  shows "js_rem a b \<le> a"
proof -
  have "0 \<le> a / b" using assms by simp
  then have "0 \<le> trunc (a / b)" by (simp add: trunc_def)
  then have "0 \<le> b * of_int (trunc (a / b))" using assms(2) by simp
  then show ?thesis by (simp add: js_rem_def)
qed

lemma two_pi_grid: "2 * Math_PI = of_int 14148475504056880 * 2 powi (- 51)"
  by (simp add: Math_PI_def)

lemma grid_coarser:
  assumes "(x::real) = of_int m * 2 powi j" "k \<le> j"
  shows "\<exists>m'::int. x = of_int m' * 2 powi k"
proof -
  have "(2::real) powi j = 2 powi ((j - k) + k)" by simp
  also have "\<dots> = 2 powi (j - k) * 2 powi k" by (rule power_int_add) simp
  also have "(2::real) powi (j - k) = 2 ^ nat (j - k)" using assms(2) by (simp add: power_int_def)
  finally have "x = of_int (m * 2 ^ nat (j - k)) * 2 powi k" by (simp add: assms(1))
  then show ?thesis by blast
qed

lemma wrap_exact:
  assumes "0 \<le> y" "Math_PI < js_rem (to_double y) (2 * Math_PI)"
  shows "to_double (js_rem (to_double y) (2 * Math_PI) - 2 * Math_PI)
           = js_rem (to_double y) (2 * Math_PI) - 2 * Math_PI"
proof -
  let ?p2 = "2 * Math_PI"
  let ?s = "to_double y"
  let ?n = "js_rem ?s ?p2"
  have p2: "0 < ?p2" by (simp add: Math_PI_def)
  have s0: "0 \<le> ?s" using assms(1) by (rule to_double_nonneg)
  have n: "0 \<le> ?n" "?n < ?p2" using js_rem_nonneg[OF s0 p2] by simp_all
  have "?n \<le> ?s" using s0 p2 by (rule js_rem_le)
  with assms(2) Math_PI_bounds have s2: "2 < ?s" by linarith
  then have y0: "y \<noteq> 0" by (auto simp add: to_double_def)
  have b1: "1 \<le> binade y"
  proof (rule ccontr)
    assume "\<not> 1 \<le> binade y"
    then have "binade y + 1 \<le> 1" by simp
    then have "(2::real) powi (binade y + 1) \<le> 2 powi 1" by (intro power_int_increasing) simp_all
    with to_double_abs_le[OF y0] have "\<bar>?s\<bar> \<le> 2" by simp
    with s2 show False by simp
  qed
  obtain m :: int where m: "?s = of_int m * 2 powi (binade y - 52)"
    using to_double_grid by blast
  from b1 have "- 51 \<le> binade y - 52" by simp
  from grid_coarser[OF m this] obtain m1 :: int where m1: "?s = of_int m1 * 2 powi (- 51)"
    by blast
  have "?n - ?p2 = ?s - ?p2 * of_int (trunc (?s / ?p2)) - ?p2" by (simp add: js_rem_def)
  also have "\<dots> = of_int (m1 - 14148475504056880 * trunc (?s / ?p2) - 14148475504056880)
                    * 2 powi (- 51)"
    by (simp only: two_pi_grid m1) (simp add: algebra_simps)
  finally have g: "?n - ?p2 = of_int (m1 - 14148475504056880 * trunc (?s / ?p2) - 14148475504056880)
                    * 2 powi (- 51)" .
  have x: "?n - ?p2 < 0" "- Math_PI < ?n - ?p2" using n assms(2) by simp_all
  then have "\<bar>?n - ?p2\<bar> < 2 powi (1 + 1)" using Math_PI_bounds by simp
  with x have "binade (?n - ?p2) \<le> 1" by (intro binade_le) simp_all
  then have "binade (?n - ?p2) - 52 \<le> - 51" by simp
  with g show ?thesis by (rule to_double_exact)
qed

lemma normalizeAngle_double_range:
  "- Math_PI < normalizeAngle_double t \<and> normalizeAngle_double t \<le> Math_PI"
proof -
  let ?p2 = "2 * Math_PI"
  let ?y = "js_rem t ?p2 + ?p2"
  let ?n = "js_rem (to_double ?y) ?p2"
  have p2: "0 < ?p2" by (simp add: Math_PI_def)
  have p: "0 < Math_PI" by (simp add: Math_PI_def)
  have "- ?p2 < js_rem t ?p2" using js_rem_bounds[OF p2, of t] by simp
  then have y: "0 \<le> ?y" by simp
  then have s0: "0 \<le> to_double ?y" by (rule to_double_nonneg)
  have n: "0 \<le> ?n" "?n < ?p2" using js_rem_nonneg[OF s0 p2] by simp_all
  show ?thesis
  proof (cases "Math_PI < ?n")
    case True
    have "normalizeAngle_double t = to_double (?n - ?p2)"
      using True by (simp add: normalizeAngle_double_def Let_def)
    also have "\<dots> = ?n - ?p2" using y True by (rule wrap_exact)
    finally show ?thesis using True n p by simp
  next
    case False
    then have "normalizeAngle_double t = ?n"
      by (simp add: normalizeAngle_double_def Let_def)
    then show ?thesis using False n p by simp
  qed
qed

lemma to_double_error: "\<bar>to_double x - x\<bar> \<le> ulp x / 2"
proof (cases "x = 0")
  case True then show ?thesis by (simp add: to_double_def)
next
  case False
  let ?q = "x / ulp x"
  have "\<bar>of_int (round_even ?q) - ?q\<bar> \<le> 1 / 2"
    using round_even_bounds[of ?q] by linarith
  then have "\<bar>of_int (round_even ?q) - ?q\<bar> * ulp x \<le> 1 / 2 * ulp x"
    by (rule mult_right_mono) simp
  moreover have "\<bar>of_int (round_even ?q) - ?q\<bar> * ulp x = \<bar>of_int (round_even ?q) * ulp x - x\<bar>"
  proof -
    have "\<bar>of_int (round_even ?q) - ?q\<bar> * ulp x = \<bar>(of_int (round_even ?q) - ?q) * ulp x\<bar>"
      by (simp add: abs_mult)
    also have "(of_int (round_even ?q) - ?q) * ulp x = of_int (round_even ?q) * ulp x - x"
      by (simp add: algebra_simps)
    finally show ?thesis .
  qed
  ultimately show ?thesis using False by (simp add: to_double_def)
qed

lemma to_double_ge_grid:
  assumes "a = of_int m * ulp x" "a \<le> x"
  shows "a \<le> to_double x"
proof (cases "x = 0")
  case True then show ?thesis using assms by (simp add: to_double_def)
next
  case False
  have "of_int m \<le> x / ulp x" using assms by (simp add: pos_le_divide_eq)
  then have "m \<le> round_even (x / ulp x)" by (rule round_even_ge)
  then have "of_int m * ulp x \<le> of_int (round_even (x / ulp x)) * ulp x"
    by (intro mult_right_mono) simp_all
  then show ?thesis using False assms(1) by (simp add: to_double_def)
qed

lemma to_double_le_grid:
  assumes "a = of_int m * ulp x" "x \<le> a"
  shows "to_double x \<le> a"
proof (cases "x = 0")
  case True then show ?thesis using assms by (simp add: to_double_def)
next
  case False
  have "x / ulp x \<le> of_int m" using assms by (simp add: pos_divide_le_eq)
  then have "round_even (x / ulp x) \<le> m" by (rule round_even_le)
  then have "of_int (round_even (x / ulp x)) * ulp x \<le> of_int m * ulp x"
    by (intro mult_right_mono) simp_all
  then show ?thesis using False assms(1) by (simp add: to_double_def)
qed

lemma on_ulp_grid:
  assumes "(a::real) = of_int m * 2 powi j" "binade x - 52 \<le> j"
  shows "\<exists>m'::int. a = of_int m' * ulp x"
  unfolding ulp_def using assms by (rule grid_coarser)

lemma ulp_half_le:
  assumes "binade x \<le> k"
  shows "ulp x / 2 \<le> 2 powi (k - 53)"
proof -
  have "ulp x / 2 = 2 powi (binade x - 52) * 2 powi (- 1)" by (simp add: ulp_def)
  also have "\<dots> = 2 powi (binade x - 52 + (- 1))" by (rule power_int_add[symmetric]) simp
  also have "\<dots> \<le> 2 powi (k - 53)" using assms by (intro power_int_increasing) simp_all
  finally show ?thesis .
qed

lemma close_nonneg:
  assumes "0 \<le> t" "t \<le> Math_PI"
  shows "\<bar>normalizeAngle_double t - t\<bar> \<le> 2 powi (- 50)"
proof -
  let ?p2 = "2 * Math_PI"
  let ?y = "t + ?p2"
  let ?s = "to_double ?y"
  have pb: "3 < Math_PI" "Math_PI < 4" by (rule Math_PI_bounds)+
  have r1: "js_rem t ?p2 = t" using assms pb by (intro js_rem_small) simp_all
  have y: "2 powi 2 \<le> \<bar>?y\<bar>" "\<bar>?y\<bar> < 2 powi (3 + 1)" using assms pb by simp_all
  have b: "binade ?y \<le> 3" using y(2) assms pb by (intro binade_le) simp_all
  have e: "\<bar>?s - ?y\<bar> \<le> 2 powi (- 50)"
    using to_double_error[of ?y] ulp_half_le[OF b] by simp
  have g2: "?p2 = of_int 884279719003555 * 2 powi (- 47)" by (simp add: Math_PI_def)
  obtain m2 :: int where m2: "?p2 = of_int m2 * ulp ?y"
    using on_ulp_grid[OF g2, of ?y] b by auto
  have lo: "?p2 \<le> ?s" using m2 by (rule to_double_ge_grid) (simp add: assms)
  have g3: "3 * Math_PI = of_int 2652839157010665 * 2 powi (- 48)" by (simp add: Math_PI_def)
  obtain m3 :: int where m3: "3 * Math_PI = of_int m3 * ulp ?y"
    using on_ulp_grid[OF g3, of ?y] b by auto
  have hi: "?s \<le> 3 * Math_PI" using m3 by (rule to_double_le_grid) (simp add: assms)
  have n: "js_rem ?s ?p2 = ?s - ?p2"
    using js_rem_shift[of "?s - ?p2" ?p2] lo hi pb by simp
  have c: "\<not> ?s - ?p2 > Math_PI" using hi by simp
  have "normalizeAngle_double t = ?s - ?p2"
    by (simp only: normalizeAngle_double_def two_pi_double r1 n Let_def c if_False)
  then have "normalizeAngle_double t - t = ?s - ?y" by simp
  then show ?thesis using e by (simp only:)
qed

lemma close_neg:
  assumes "- Math_PI + 2 powi (- 51) \<le> t" "t < 0"
  shows "\<bar>normalizeAngle_double t - t\<bar> \<le> 2 powi (- 50)"
proof -
  let ?p2 = "2 * Math_PI"
  let ?y = "t + ?p2"
  let ?s = "to_double ?y"
  have pb: "3 < Math_PI" "Math_PI < 4" by (rule Math_PI_bounds)+
  have tiny: "(0::real) < 2 powi (- 51)" by simp
  have r1: "js_rem t ?p2 = t" using assms pb tiny by (intro js_rem_small_neg) linarith+
  have y0: "0 \<le> ?y" "?y \<noteq> 0" "Math_PI + 2 powi (- 51) \<le> ?y" "?y < ?p2"
    using assms pb tiny by linarith+
  have b: "binade ?y \<le> 2" using y0 pb by (intro binade_le) simp_all
  have e: "\<bar>?s - ?y\<bar> \<le> 2 powi (- 51)"
    using to_double_error[of ?y] ulp_half_le[OF b] by simp
  have e': "\<bar>?s - ?y\<bar> \<le> 2 powi (- 50)"
  proof -
    have "(2::real) powi (- 51) \<le> 2 powi (- 50)" by (intro power_int_increasing) simp_all
    with e show ?thesis by linarith
  qed
  have g2: "?p2 = of_int 884279719003555 * 2 powi (- 47)" by (simp add: Math_PI_def)
  obtain m2 :: int where m2: "?p2 = of_int m2 * ulp ?y"
    using on_ulp_grid[OF g2, of ?y] b by auto
  have "?y \<le> ?p2" using assms(2) by simp
  with m2 have hi: "?s \<le> ?p2" by (rule to_double_le_grid)
  have lo: "Math_PI < ?s"
  proof (cases "4 \<le> ?y")
    case True
    then have "binade ?y = 2" using y0 pb by (intro binade_eq) simp_all
    then have "(4::real) = of_int (2 ^ 52) * ulp ?y" by (simp add: ulp_def)
    then have "4 \<le> ?s" using True by (rule to_double_ge_grid)
    then show ?thesis using pb by simp
  next
    case False
    then have "binade ?y = 1" using y0 pb tiny by (intro binade_eq) simp_all
    then have "Math_PI + 2 powi (- 51) = of_int (7074237752028441) * ulp ?y"
      by (simp add: ulp_def Math_PI_def)
    then have "Math_PI + 2 powi (- 51) \<le> ?s" using y0(3) by (rule to_double_ge_grid)
    then show ?thesis using tiny by linarith
  qed
  show ?thesis
  proof (cases "?s = ?p2")
    case True
    have n: "js_rem ?s ?p2 = 0" by (simp add: True js_rem_def trunc_def)
    have c: "\<not> 0 > Math_PI" using pb by simp
    have "normalizeAngle_double t = 0"
      by (simp only: normalizeAngle_double_def two_pi_double r1 n Let_def c if_False)
    then have "normalizeAngle_double t - t = ?s - ?y" using True by simp
    then show ?thesis using e' by (simp only:)
  next
    case False
    with hi have lt: "?s < ?p2" by simp
    have n: "js_rem ?s ?p2 = ?s" using lo lt pb by (intro js_rem_small) simp_all
    have c: "Math_PI < js_rem ?s ?p2" using lo n by simp
    have "normalizeAngle_double t = to_double (js_rem ?s ?p2 - ?p2)"
      using c by (simp add: normalizeAngle_double_def Let_def r1)
    also have "\<dots> = js_rem ?s ?p2 - ?p2" using y0(1) c by (rule wrap_exact)
    finally have "normalizeAngle_double t = ?s - ?p2" by (simp only: n)
    then have "normalizeAngle_double t - t = ?s - ?y" by simp
    then show ?thesis using e' by (simp only:)
  qed
qed

lemma normalizeAngle_double_close:
  assumes "- Math_PI + 2 powi (- 51) \<le> t" "t \<le> Math_PI"
  shows "\<bar>normalizeAngle_double t - t\<bar> \<le> 2 powi (- 50)"
  using assms close_nonneg[of t] close_neg[of t] by (cases "0 \<le> t") simp_all

lemma tenth_double: "to_double (1 / 10) = 3602879701896397 / 2 ^ 55"
  by (subst to_double_in_binade[where k = "- 4"]) (simp_all add: round_even_def)

text \<open>
  C6, as stated, has the wrap return an angle that is already in the interval
  unchanged. The code computes in doubles: the double nearest \<open>0.1\<close>, the initial
  angle of the component, comes back as \<open>112589990684262 / 2^50\<close>, that is
  \<open>0.09999999999999964\<close>, because the sum with \<^verbatim>\<open>2 * Math.PI\<close> is rounded; and
  the wrap of \<open>-3.5000000000000004\<close> is changed again by a second wrap.
\<close>

theorem normalizeAngle_double_counterexample:
  "- pi < to_double (1 / 10) \<and> to_double (1 / 10) \<le> pi
   \<and> to_double (1 / 10) = 3602879701896397 / 2 ^ 55
   \<and> normalizeAngle_double (to_double (1 / 10)) = 112589990684262 / 2 ^ 50
   \<and> normalizeAngle_double (to_double (1 / 10)) \<noteq> to_double (1 / 10)
   \<and> normalizeAngle_double (- 7881299347898369 / 2 ^ 51) = 6267176156158511 / 2 ^ 51
   \<and> normalizeAngle_double (normalizeAngle_double (- 7881299347898369 / 2 ^ 51))
       = 6267176156158512 / 2 ^ 51
   \<and> normalizeAngle_double (normalizeAngle_double (- 7881299347898369 / 2 ^ 51))
       \<noteq> normalizeAngle_double (- 7881299347898369 / 2 ^ 51)"
proof -
  have r: "- pi < to_double (1 / 10)" "to_double (1 / 10) \<le> pi"
    using pi_ge_two by (simp_all add: tenth_double)
  have a: "normalizeAngle_double (to_double (1 / 10)) = 112589990684262 / 2 ^ 50"
    by (simp only: tenth_double normalizeAngle_double_tenth)
  have "(112589990684262 / 2 ^ 50 :: real) \<noteq> 3602879701896397 / 2 ^ 55" by simp
  then have b: "normalizeAngle_double (to_double (1 / 10)) \<noteq> to_double (1 / 10)"
    using a tenth_double by metis
  have c: "normalizeAngle_double (normalizeAngle_double (- 7881299347898369 / 2 ^ 51))
       = 6267176156158512 / 2 ^ 51"
    by (simp only: not_idempotent_values)
  have d: "normalizeAngle_double (normalizeAngle_double (- 7881299347898369 / 2 ^ 51))
       \<noteq> normalizeAngle_double (- 7881299347898369 / 2 ^ 51)"
    by (simp only: not_idempotent_values) simp
  from r tenth_double a b not_idempotent_values(1) c d show ?thesis by blast
qed

text \<open>
  C6, amended. In exact real arithmetic the wrap returns a value of the interval from
  \<open>- pi\<close> (excluded) to \<open>pi\<close> (included), returns an angle of that interval
  unchanged and is idempotent. In the double arithmetic of the code it returns, for
  every angle, a value of the interval from \<open>- Math_PI\<close> (excluded) to \<open>Math_PI\<close>
  (included), and an angle \<open>t\<close> of that interval, from \<open>- Math_PI + 2 powi (- 51)\<close>
  on, which every double of the interval is, comes back within \<open>2 powi (- 50)\<close> of
  \<open>t\<close>, not in general as \<open>t\<close> itself.
\<close>

theorem normalizeAngle_up_to_rounding:
  "- pi < normalizeAngle t \<and> normalizeAngle t \<le> pi
   \<and> (- pi < t \<and> t \<le> pi \<longrightarrow> normalizeAngle t = t)
   \<and> normalizeAngle (normalizeAngle t) = normalizeAngle t
   \<and> - Math_PI < normalizeAngle_double t \<and> normalizeAngle_double t \<le> Math_PI
   \<and> (- Math_PI + 2 powi (- 51) \<le> t \<and> t \<le> Math_PI
        \<longrightarrow> \<bar>normalizeAngle_double t - t\<bar> \<le> 2 powi (- 50))"
  using normalizeAngle_range[of t] normalizeAngle_fixed[of t]
    normalizeAngle_fixed[of "normalizeAngle t"] normalizeAngle_double_range[of t]
    normalizeAngle_double_close[of t]
  by blast

theorem normalizeAngle_up_to_rounding_witness:
  "- pi < (1::real) \<and> (1::real) \<le> pi \<and> normalizeAngle 1 = 1
   \<and> - Math_PI + 2 powi (- 51) \<le> to_double (1 / 10) \<and> to_double (1 / 10) \<le> Math_PI
   \<and> \<bar>normalizeAngle_double (to_double (1 / 10)) - to_double (1 / 10)\<bar> \<le> 2 powi (- 50)
   \<and> normalizeAngle_double (to_double (1 / 10)) - to_double (1 / 10) = - 13 / 2 ^ 55"
proof -
  have h: "- pi < (1::real)" "(1::real) \<le> pi" using pi_ge_two by linarith+
  have k: "- Math_PI + 2 powi (- 51) \<le> to_double (1 / 10)" "to_double (1 / 10) \<le> Math_PI"
    by (simp_all add: tenth_double Math_PI_def)
  have "(112589990684262 / 2 ^ 50 :: real) - 3602879701896397 / 2 ^ 55 = - 13 / 2 ^ 55" by simp
  then have v: "normalizeAngle_double (to_double (1 / 10)) - to_double (1 / 10) = - 13 / 2 ^ 55"
    using normalizeAngle_double_tenth tenth_double by metis
  from h k v normalizeAngle_up_to_rounding[of 1]
    normalizeAngle_up_to_rounding[of "to_double (1 / 10)"]
  show ?thesis by blast
qed

subsection \<open>One step of the dynamics\<close>

text \<open>The divisor of the angular acceleration never vanishes.\<close>

lemma cartpole_denominator_positive:
  "0.5 \<le> poleLength * (totalMass - poleMass * cos t * cos t)"
proof -
  have "(cos t)\<^sup>2 \<le> 1" by (simp add: abs_square_le_1)
  then have "cos t * cos t \<le> 1" by (simp add: power2_eq_square)
  then show ?thesis
    by (simp add: poleLength_def totalMass_def cartMass_def poleMass_def)
qed

lemma updatePhysics_fields:
  "st_x (updatePhysics s F) = st_x s + st_dx s * cartpole_dt"
  "st_theta (updatePhysics s F) = normalizeAngle (st_theta s + st_dtheta s * cartpole_dt)"
  "st_score (updatePhysics s F) = st_score s + 1"
  by (simp_all add: updatePhysics_def Let_def)

text \<open>
  C2. One step of the cart-pole: with \<open>g\<close>, \<open>M\<close>, \<open>m\<close>, \<open>l\<close> the constants of the
  component, the angular acceleration of the pole is
  \<open>(g sin t (M + m) - (F + m l w\<^sup>2 sin t) cos t) / (l (M + m - m cos\<^sup>2 t))\<close>, the
  acceleration of the cart has the pole-force term \<open>m l w\<^sup>2 sin t\<close> once added and
  once subtracted, position and angle advance by the old velocities times the step,
  the velocities advance by the accelerations times the step, the new angle is wrapped
  into the interval from \<open>- pi\<close> (excluded) to \<open>pi\<close> (included), which changes it
  by a multiple of a full turn, and the score grows by exactly one.
\<close>

theorem updatePhysics_euler:
  "(let ddtheta = (gravity * sin (st_theta s) * (cartMass + poleMass)
                   - (F + poleMass * poleLength * (st_dtheta s)\<^sup>2 * sin (st_theta s))
                     * cos (st_theta s))
                  / (poleLength * (cartMass + poleMass - poleMass * (cos (st_theta s))\<^sup>2));
        ddx = (F + poleMass * poleLength * (st_dtheta s)\<^sup>2 * sin (st_theta s)
               + poleMass * poleLength * ddtheta * cos (st_theta s)
               - poleMass * poleLength * (st_dtheta s)\<^sup>2 * sin (st_theta s))
              / (cartMass + poleMass)
    in st_x (updatePhysics s F) = st_x s + st_dx s * cartpole_dt
       \<and> st_theta (updatePhysics s F) = normalizeAngle (st_theta s + st_dtheta s * cartpole_dt)
       \<and> st_dx (updatePhysics s F) = st_dx s + ddx * cartpole_dt
       \<and> st_dtheta (updatePhysics s F) = st_dtheta s + ddtheta * cartpole_dt)
   \<and> - pi < st_theta (updatePhysics s F) \<and> st_theta (updatePhysics s F) \<le> pi
   \<and> (\<exists>k::int. st_theta (updatePhysics s F)
                 = st_theta s + st_dtheta s * cartpole_dt + 2 * pi * of_int k)
   \<and> st_score (updatePhysics s F) = st_score s + 1
   \<and> gravity = 9.81 \<and> cartMass = 1 \<and> poleMass = 0.1 \<and> poleLength = 0.5 \<and> cartpole_dt = 0.02"
proof -
  have acc: "st_dtheta (updatePhysics s F) = st_dtheta s
       + ((gravity * sin (st_theta s) * (cartMass + poleMass)
           - (F + poleMass * poleLength * (st_dtheta s)\<^sup>2 * sin (st_theta s)) * cos (st_theta s))
          / (poleLength * (cartMass + poleMass - poleMass * (cos (st_theta s))\<^sup>2))) * cartpole_dt"
    "st_dx (updatePhysics s F) = st_dx s
       + ((F + poleMass * poleLength * (st_dtheta s)\<^sup>2 * sin (st_theta s)
           + poleMass * poleLength
             * ((gravity * sin (st_theta s) * (cartMass + poleMass)
                 - (F + poleMass * poleLength * (st_dtheta s)\<^sup>2 * sin (st_theta s))
                   * cos (st_theta s))
                / (poleLength * (cartMass + poleMass - poleMass * (cos (st_theta s))\<^sup>2)))
             * cos (st_theta s)
           - poleMass * poleLength * (st_dtheta s)\<^sup>2 * sin (st_theta s))
          / (cartMass + poleMass)) * cartpole_dt"
    by (simp_all add: updatePhysics_def Let_def totalMass_def power2_eq_square mult.assoc)
  have range: "- pi < st_theta (updatePhysics s F)" "st_theta (updatePhysics s F) \<le> pi"
    using normalizeAngle_range by (simp_all add: updatePhysics_fields)
  have wrap: "\<exists>k::int. st_theta (updatePhysics s F)
                 = st_theta s + st_dtheta s * cartpole_dt + 2 * pi * of_int k"
    using normalizeAngle_congr by (simp add: updatePhysics_fields)
  have vals: "gravity = 9.81" "cartMass = 1" "poleMass = 0.1" "poleLength = 0.5" "cartpole_dt = 0.02"
    by (simp_all add: gravity_def cartMass_def poleMass_def poleLength_def cartpole_dt_def)
  show ?thesis
    unfolding Let_def using acc range wrap vals updatePhysics_fields[of s F] by blast
qed

subsection \<open>The failure policy of the timer callback\<close>

text \<open>
  C4. On a tick of a running cart-pole with applied force \<open>F\<close> (the controller's
  output under the autopilot, the keyboard's force otherwise): if the newly computed
  state has a cart position beyond 2.4 or a pole angle beyond a quarter turn in
  absolute value, the run halts and the state kept is the previous one, score
  included; otherwise the new state is kept and the run continues.
\<close>

theorem tick_failure_policy:
  assumes "isRunning sim"
    and "F = (if isAutoPilot sim then fst (calculatePIDControl (state sim) (pidController sim))
              else force sim)"
  shows "(\<bar>st_x (updatePhysics (state sim) F)\<bar> > 2.4
           \<or> \<bar>st_theta (updatePhysics (state sim) F)\<bar> > pi / 2
          \<longrightarrow> state (tick sim) = state sim \<and> \<not> isRunning (tick sim))
       \<and> (\<not> (\<bar>st_x (updatePhysics (state sim) F)\<bar> > 2.4
               \<or> \<bar>st_theta (updatePhysics (state sim) F)\<bar> > pi / 2)
          \<longrightarrow> state (tick sim) = updatePhysics (state sim) F \<and> isRunning (tick sim))"
  using assms by (auto simp add: tick_def Let_def split: prod.splits)

theorem tick_failure_policy_witness:
  "isRunning halting_sim
   \<and> \<bar>st_x (updatePhysics (state halting_sim) (force halting_sim))\<bar> > 2.4
   \<and> st_score (updatePhysics (state halting_sim) (force halting_sim)) = 6
   \<and> state (tick halting_sim) = state halting_sim
   \<and> st_score (state (tick halting_sim)) = 5
   \<and> \<not> isRunning (tick halting_sim)
   \<and> isRunning initial_sim
   \<and> state (tick initial_sim) = updatePhysics (state initial_sim) (force initial_sim)
   \<and> st_score (state (tick initial_sim)) = 1
   \<and> isRunning (tick initial_sim)"
proof -
  have r: "isRunning halting_sim" by (simp add: halting_sim_def)
  have f: "force halting_sim = (if isAutoPilot halting_sim
             then fst (calculatePIDControl (state halting_sim) (pidController halting_sim))
             else force halting_sim)" by (simp add: halting_sim_def)
  have x: "st_x (updatePhysics (state halting_sim) (force halting_sim)) = 2.41"
    by (simp add: updatePhysics_fields halting_sim_def cartpole_dt_def)
  have s: "st_score (state halting_sim) = 5"
    "st_score (updatePhysics (state halting_sim) (force halting_sim)) = 6"
    by (simp_all add: updatePhysics_fields halting_sim_def)
  have halt: "state (tick halting_sim) = state halting_sim \<and> \<not> isRunning (tick halting_sim)"
    using tick_failure_policy[OF r f] x by simp
  have r': "isRunning initial_sim" by (simp add: initial_sim_def)
  have f': "force initial_sim = (if isAutoPilot initial_sim
             then fst (calculatePIDControl (state initial_sim) (pidController initial_sim))
             else force initial_sim)" by (simp add: initial_sim_def)
  have x': "st_x (updatePhysics (state initial_sim) (force initial_sim)) = 0"
    by (simp add: updatePhysics_fields initial_sim_def tilted_def)
  have "- pi < (0.1::real)" "(0.1::real) \<le> pi" using pi_ge_two by linarith+
  then have "normalizeAngle 0.1 = 0.1" by (rule normalizeAngle_fixed)
  then have t': "st_theta (updatePhysics (state initial_sim) (force initial_sim)) = 0.1"
    by (simp add: updatePhysics_fields initial_sim_def tilted_def)
  have small: "\<not> \<bar>0.1::real\<bar> > pi / 2" using pi_ge_two by simp
  have s': "st_score (updatePhysics (state initial_sim) (force initial_sim)) = 1"
    by (simp add: updatePhysics_fields initial_sim_def tilted_def)
  have go: "state (tick initial_sim) = updatePhysics (state initial_sim) (force initial_sim)
            \<and> isRunning (tick initial_sim)"
    using tick_failure_policy[OF r' f'] x' t' small by simp
  from r x s halt r' go s' show ?thesis by simp
qed

subsection \<open>The autopilot controller\<close>

lemma calculatePIDControl_fields:
  "pid_target (snd (calculatePIDControl s c)) = pid_target c"
  "pid_integral (snd (calculatePIDControl s c))
     = pid_integral c + (st_theta s - pid_target c) * cartpole_dt"
  "pid_lastError (snd (calculatePIDControl s c)) = st_theta s - pid_target c"
  by (simp_all add: calculatePIDControl_def Let_def)

lemma sustained_target: "pid_target (sustained n s c) = pid_target c"
  by (induction n arbitrary: c) (simp_all add: calculatePIDControl_fields)

lemma sustained_integral:
  "pid_integral (sustained n s c)
     = pid_integral c + real n * ((st_theta s - pid_target c) * cartpole_dt)"
proof (induction n arbitrary: c)
  case 0
  show ?case by simp
next
  case (Suc n)
  let ?c' = "snd (calculatePIDControl s c)"
  have "pid_integral (sustained (Suc n) s c) = pid_integral (sustained n s ?c')" by simp
  also have "\<dots> = pid_integral ?c' + real n * ((st_theta s - pid_target ?c') * cartpole_dt)"
    by (rule Suc.IH)
  also have "\<dots> = pid_integral c + real (Suc n) * ((st_theta s - pid_target c) * cartpole_dt)"
    by (simp add: calculatePIDControl_fields algebra_simps)
  finally show ?case .
qed

lemma sustained_unbounded:
  assumes "st_theta s \<noteq> pid_target c"
  shows "\<exists>n. B < \<bar>pid_integral (sustained n s c)\<bar>"
proof -
  define e where "e = (st_theta s - pid_target c) * cartpole_dt"
  have e: "e \<noteq> 0" using assms by (simp add: e_def cartpole_dt_def)
  then have "0 < \<bar>e\<bar>" by simp
  then obtain n :: nat where n: "B + \<bar>pid_integral c\<bar> < real n * \<bar>e\<bar>"
    using reals_Archimedean3 by blast
  have "real n * \<bar>e\<bar> = \<bar>real n * e\<bar>" by (simp add: abs_mult)
  also have "\<dots> \<le> \<bar>pid_integral c + real n * e\<bar> + \<bar>pid_integral c\<bar>" by linarith
  finally have "B < \<bar>pid_integral c + real n * e\<bar>" using n by linarith
  then show ?thesis unfolding e_def sustained_integral[symmetric] by blast
qed

lemma calculatePIDControl_force:
  "fst (calculatePIDControl s c)
     = max (- 15) (min 15
         (pid_kp c * (st_theta s - pid_target c)
          + pid_ki c * (pid_integral c + (st_theta s - pid_target c) * cartpole_dt)
          + pid_kd c * ((st_theta s - pid_target c - pid_lastError c) / cartpole_dt)))"
  by (simp add: calculatePIDControl_def Let_def maxForce_def)

lemma calculatePIDControl_state:
  "snd (calculatePIDControl s c)
     = c\<lparr>pid_integral := pid_integral c + (st_theta s - pid_target c) * cartpole_dt,
         pid_lastError := st_theta s - pid_target c\<rparr>"
  by (simp add: calculatePIDControl_def Let_def)

text \<open>
  C10. The controller of the cart-pole takes the error as measured angle minus target,
  where the reusable controller takes setpoint minus measured; its integral
  accumulates error times step with no clamp, so that under a sustained non-zero error
  it exceeds every bound after enough calls; the force it returns is the sum of the
  proportional, integral (on the accumulated integral) and derivative terms, and only
  this sum is limited, to \<open>[-15, 15]\<close>; the call changes nothing of the controller but
  the integral and the last error.
\<close>

theorem calculatePIDControl_convention:
  "pid_lastError (snd (calculatePIDControl s c)) = st_theta s - pid_target c
   \<and> prevError (snd (update p (Fin setpoint) (Fin measured) dt)) = Fin (setpoint - measured)
   \<and> pid_integral (snd (calculatePIDControl s c))
       = pid_integral c + (st_theta s - pid_target c) * cartpole_dt
   \<and> pid_integral (sustained n s c)
       = pid_integral c + real n * ((st_theta s - pid_target c) * cartpole_dt)
   \<and> (st_theta s \<noteq> pid_target c \<longrightarrow> (\<forall>B. \<exists>k. B < \<bar>pid_integral (sustained k s c)\<bar>))
   \<and> - 15 \<le> fst (calculatePIDControl s c) \<and> fst (calculatePIDControl s c) \<le> 15
   \<and> fst (calculatePIDControl s c)
       = max (- 15) (min 15
           (pid_kp c * (st_theta s - pid_target c)
            + pid_ki c * (pid_integral c + (st_theta s - pid_target c) * cartpole_dt)
            + pid_kd c * ((st_theta s - pid_target c - pid_lastError c) / cartpole_dt)))
   \<and> snd (calculatePIDControl s c)
       = c\<lparr>pid_integral := pid_integral c + (st_theta s - pid_target c) * cartpole_dt,
           pid_lastError := st_theta s - pid_target c\<rparr>"
proof -
  have sign: "prevError (snd (update p (Fin setpoint) (Fin measured) dt)) = Fin (setpoint - measured)"
    by (simp add: update_def Let_def minus_number_def)
  have out: "- 15 \<le> fst (calculatePIDControl s c)" "fst (calculatePIDControl s c) \<le> 15"
    by (simp_all add: calculatePIDControl_def Let_def maxForce_def)
  from sign out calculatePIDControl_fields(2,3) sustained_integral sustained_unbounded
    calculatePIDControl_force calculatePIDControl_state
  show ?thesis by blast
qed

theorem calculatePIDControl_convention_witness:
  "st_theta tilted \<noteq> pid_target initial_pid
   \<and> (\<forall>B. \<exists>k. B < \<bar>pid_integral (sustained k tilted initial_pid)\<bar>)
   \<and> pid_integral (sustained 1000 tilted initial_pid) = 2
   \<and> fst (calculatePIDControl tilted initial_pid) = 15
   \<and> fst (calculatePIDControl (tilted\<lparr>st_theta := - 0.1\<rparr>) initial_pid) = - 15
   \<and> fst (calculatePIDControl (tilted\<lparr>st_theta := 0.01\<rparr>) initial_pid) = 5.30002"
proof -
  have h: "st_theta tilted \<noteq> pid_target initial_pid"
    by (simp add: tilted_def initial_pid_def)
  have i: "pid_integral (sustained 1000 tilted initial_pid) = 2"
    using calculatePIDControl_convention[of tilted initial_pid _ _ _ _ 1000]
    by (simp add: tilted_def initial_pid_def cartpole_dt_def)
  have f: "fst (calculatePIDControl tilted initial_pid) = 15"
    using calculatePIDControl_convention[of tilted initial_pid]
    by (simp add: tilted_def initial_pid_def cartpole_dt_def)
  have g: "fst (calculatePIDControl (tilted\<lparr>st_theta := - 0.1\<rparr>) initial_pid) = - 15"
    using calculatePIDControl_convention[of "tilted\<lparr>st_theta := - 0.1\<rparr>" initial_pid]
    by (simp add: tilted_def initial_pid_def cartpole_dt_def)
  have k: "fst (calculatePIDControl (tilted\<lparr>st_theta := 0.01\<rparr>) initial_pid) = 5.30002"
    using calculatePIDControl_convention[of "tilted\<lparr>st_theta := 0.01\<rparr>" initial_pid]
    by (simp add: tilted_def initial_pid_def cartpole_dt_def)
  from h i f g k calculatePIDControl_convention[of tilted initial_pid] show ?thesis by blast
qed

section \<open>The drones: results\<close>

subsection \<open>The walls\<close>

lemma boundary_policy:
  "10 \<le> pos_x (position (boundary u)) \<and> pos_x (position (boundary u)) \<le> 590
   \<and> 10 \<le> pos_y (position (boundary u)) \<and> pos_y (position (boundary u)) \<le> 290
   \<and> (590 < pos_x (position u) \<longrightarrow> pos_x (position (boundary u)) = 590 \<and> vel_x (velocity (boundary u)) = 0)
   \<and> (pos_x (position u) < 10 \<longrightarrow> pos_x (position (boundary u)) = 10 \<and> vel_x (velocity (boundary u)) = 0)
   \<and> (290 < pos_y (position u) \<longrightarrow> pos_y (position (boundary u)) = 290 \<and> vel_y (velocity (boundary u)) = 0)
   \<and> (pos_y (position u) < 10 \<longrightarrow> pos_y (position (boundary u)) = 10 \<and> vel_y (velocity (boundary u)) = 0)"
  by (simp add: boundary_def Let_def)

lemma far_corner_new:
  "simu_integrate 16 4.9 4.9 far_corner
     = \<lparr>position = \<lparr>pos_x = 591.244, pos_y = 291.244\<rparr>,
        velocity = \<lparr>vel_x = 8.4, vel_y = - 8.4\<rparr>, rotation = 0, angularVelocity = 0\<rparr>"
  by (simp add: simu_integrate_def far_corner_def Let_def dt_of_def PHYSICS_PARAMS_def)

lemma near_corner_new:
  "simu_integrate 16 4.9 4.9 near_corner
     = \<lparr>position = \<lparr>pos_x = 8.756, pos_y = 8.756\<rparr>,
        velocity = \<lparr>vel_x = - 8.4, vel_y = 8.4\<rparr>, rotation = 0, angularVelocity = 0\<rparr>"
  by (simp add: simu_integrate_def near_corner_def Let_def dt_of_def PHYSICS_PARAMS_def)

text \<open>
  The component with manual thrust never leaves the field: every tick stores a position
  of the rectangle, and on an axis where the integration went beyond a bound it stores
  the bound and the velocity 0.
\<close>

lemma simu_wall_clamp:
  "10 \<le> pos_x (position (simu_updatePhysics deltaTime l r s))
   \<and> pos_x (position (simu_updatePhysics deltaTime l r s)) \<le> 590
   \<and> 10 \<le> pos_y (position (simu_updatePhysics deltaTime l r s))
   \<and> pos_y (position (simu_updatePhysics deltaTime l r s)) \<le> 290
   \<and> (590 < pos_x (position (simu_integrate deltaTime l r s)) \<longrightarrow>
        pos_x (position (simu_updatePhysics deltaTime l r s)) = 590
        \<and> vel_x (velocity (simu_updatePhysics deltaTime l r s)) = 0)
   \<and> (pos_x (position (simu_integrate deltaTime l r s)) < 10 \<longrightarrow>
        pos_x (position (simu_updatePhysics deltaTime l r s)) = 10
        \<and> vel_x (velocity (simu_updatePhysics deltaTime l r s)) = 0)
   \<and> (290 < pos_y (position (simu_integrate deltaTime l r s)) \<longrightarrow>
        pos_y (position (simu_updatePhysics deltaTime l r s)) = 290
        \<and> vel_y (velocity (simu_updatePhysics deltaTime l r s)) = 0)
   \<and> (pos_y (position (simu_integrate deltaTime l r s)) < 10 \<longrightarrow>
        pos_y (position (simu_updatePhysics deltaTime l r s)) = 10
        \<and> vel_y (velocity (simu_updatePhysics deltaTime l r s)) = 0)"
  unfolding simu_updatePhysics_def
  using boundary_policy[of "simu_integrate deltaTime l r s"] by blast

lemma simu_far_corner_tick:
  "simu_updatePhysics 16 4.9 4.9 far_corner
     = \<lparr>position = \<lparr>pos_x = 590, pos_y = 290\<rparr>, velocity = \<lparr>vel_x = 0, vel_y = 0\<rparr>,
        rotation = 0, angularVelocity = 0\<rparr>"
  by (simp add: simu_updatePhysics_def far_corner_new boundary_def Let_def)

text \<open>The thrusts of the component with controllers, and its tick once they are \<open>NaN\<close>.\<close>

lemma vertical_step:
  "fst (update (verticalPositionPIDRef initial_drone) (Fin 150) (Fin 150) (drone_dt (Fin 16))) = Fin 0"
  by (simp add: initial_drone_def new_PIDController_def update_def Let_def minus_number_def drone_dt_def)

lemma update_finite:
  assumes "kp c = Fin p" "ki c = Fin i" "kd c = Fin d"
    and "outputMin c = Fin lo" "outputMax c = Fin hi"
    and "integral c = Fin i0" "prevError c = Fin e0" "i \<noteq> 0" "dt \<noteq> 0"
  shows "fst (update c (Fin sp) (Fin m) (Fin dt))
     = Fin (min (max (p * (sp - m)
                      + i * min (max (i0 + (sp - m) * dt) ((lo - p * (sp - m)) / i))
                                ((hi - p * (sp - m)) / i)
                      + d * ((sp - m - e0) / dt)) lo) hi)"
  using assms by (simp add: update_def Let_def minus_number_def)

lemma horizontal_value:
  "min (max (1 * (300 - 100)
             + (1 / 20) * min (max (0 + (300 - 100) * (4 / 25)) ((- (pi / 6) - 1 * (300 - 100)) / (1 / 20)))
                              ((pi / 6 - 1 * (300 - 100)) / (1 / 20))
             + 0 * ((300 - 100 - 0) / (4 / 25))) (- (pi / 6))) (pi / 6) = pi / 6"
proof -
  have lo: "(- (pi / 6) - 1 * (300 - 100)) / (1 / 20) \<le> 0 + (300 - 100) * (4 / 25)"
    using pi_ge_two by simp
  have hi: "(pi / 6 - 1 * (300 - 100)) / (1 / 20) \<le> 0 + (300 - 100) * (4 / 25)"
    using pi_less_4 by simp
  have inner: "min (max (0 + (300 - 100) * (4 / 25)) ((- (pi / 6) - 1 * (300 - 100)) / (1 / 20)))
            ((pi / 6 - 1 * (300 - 100)) / (1 / 20)) = (pi / 6 - 1 * (300 - 100)) / (1 / 20)"
    using lo hi by (simp only: max_absorb1 min_absorb2)
  have total: "1 * (300 - 100) + (1 / 20) * ((pi / 6 - 1 * (300 - 100)) / (1 / 20))
               + 0 * ((300 - 100 - 0) / (4 / 25)) = pi / 6"
    by (simp add: field_simps)
  have outer: "min (max (pi / 6) (- (pi / 6))) (pi / 6) = pi / 6"
    by simp
  show ?thesis by (simp only: inner total outer)
qed

lemma horizontal_step:
  "fst (update (horizontalPositionPIDRef initial_drone) (Fin 300) (Fin 100) (drone_dt (Fin 16)))
     = Fin (pi / 6)"
proof -
  have "fst (update (horizontalPositionPIDRef initial_drone) (Fin 300) (Fin 100) (Fin (4 / 25)))
     = Fin (pi / 6)"
    by (subst update_finite[where p = 1 and i = "1 / 20" and d = 0 and lo = "- (pi / 6)"
          and hi = "pi / 6" and ?i0.0 = 0 and ?e0.0 = 0])
       (simp_all only: horizontal_value, simp_all add: initial_drone_def new_PIDController_def)
  then show ?thesis by (simp add: drone_dt_def)
qed

lemma attitude_step:
  assumes "1 < 8 * h"
  shows "fst (update attitude_ki_zero (- Fin h) (Fin 0) (drone_dt (Fin 16))) = NaN"
  using assms
  by (simp add: attitude_ki_zero_def setGains_def new_PIDController_def update_def Let_def
      minus_number_def drone_dt_def)

lemma drone_control_enabled:
  assumes "pid_enabled sim"
  shows "currentLeftThrust (drone_control dt sim)
     = Math_min (Math_max
         (Fin 4.9
          + fst (update (verticalPositionPIDRef sim) (Fin 150) (pos_y (position (physicsState sim))) dt)
          + fst (update (attitudePIDRef sim)
                   (- fst (update (horizontalPositionPIDRef sim) (Fin 300)
                             (pos_x (position (physicsState sim))) dt))
                   (rotation (physicsState sim)) dt)) (Fin 0)) (Fin 100)"
    and "currentRightThrust (drone_control dt sim)
     = Math_min (Math_max
         (Fin 4.9
          + fst (update (verticalPositionPIDRef sim) (Fin 150) (pos_y (position (physicsState sim))) dt)
          - fst (update (attitudePIDRef sim)
                   (- fst (update (horizontalPositionPIDRef sim) (Fin 300)
                             (pos_x (position (physicsState sim))) dt))
                   (rotation (physicsState sim)) dt)) (Fin 0)) (Fin 100)"
  using assms by (simp_all add: drone_control_def Let_def split_beta)

lemma drone_control_ki_zero:
  "currentLeftThrust (drone_control (drone_dt (Fin 16)) drone_ki_zero) = NaN"
  "currentRightThrust (drone_control (drone_dt (Fin 16)) drone_ki_zero) = NaN"
proof -
  have e: "pid_enabled drone_ki_zero" by (simp add: drone_ki_zero_def initial_drone_def)
  have s: "physicsState drone_ki_zero = drone_hover"
    "verticalPositionPIDRef drone_ki_zero = verticalPositionPIDRef initial_drone"
    "horizontalPositionPIDRef drone_ki_zero = horizontalPositionPIDRef initial_drone"
    "attitudePIDRef drone_ki_zero = attitude_ki_zero"
    by (simp_all add: drone_ki_zero_def initial_drone_def)
  have h: "pos_x (position drone_hover) = Fin 100" "pos_y (position drone_hover) = Fin 150"
    "rotation drone_hover = Fin 0"
    by (simp_all add: drone_hover_def)
  have "(1::real) < 8 * (pi / 6)" using pi_ge_two by simp
  then have a: "fst (update attitude_ki_zero (- Fin (pi / 6)) (Fin 0) (drone_dt (Fin 16))) = NaN"
    by (rule attitude_step)
  show "currentLeftThrust (drone_control (drone_dt (Fin 16)) drone_ki_zero) = NaN"
    by (simp only: drone_control_enabled(1)[OF e] s h vertical_step horizontal_step a
        number_NaN_absorb)
  show "currentRightThrust (drone_control (drone_dt (Fin 16)) drone_ki_zero) = NaN"
    by (simp only: drone_control_enabled(2)[OF e] s h vertical_step horizontal_step a
        number_NaN_absorb)
qed

lemma drone_integrate_NaN:
  "position (drone_integrate dt NaN NaN d s) = \<lparr>pos_x = NaN, pos_y = NaN\<rparr>"
  "velocity (drone_integrate dt NaN NaN d s) = \<lparr>vel_x = NaN, vel_y = NaN\<rparr>"
  "rotation (drone_integrate dt NaN NaN d s) = NaN"
  "angularVelocity (drone_integrate dt NaN NaN d s) = NaN"
  by (simp_all add: drone_integrate_def Let_def)

lemma drone_updatePhysics_state:
  "physicsState (drone_updatePhysics deltaTime sim)
     = drone_boundary (drone_integrate (drone_dt deltaTime)
         (currentLeftThrust (drone_control (drone_dt deltaTime) sim))
         (currentRightThrust (drone_control (drone_dt deltaTime) sim))
         (fst (calculateDisturbances (disturbanceConfig sim) deltaTime (windStateRef sim, random sim)))
         (physicsState sim))"
  by (simp add: drone_updatePhysics_def Let_def split: prod.splits)

text \<open>
  So does the component with controllers as long as the position the integration gives
  is finite: flown by hand into the far corner it stops there.
\<close>

lemma drone_boundary_finite:
  assumes "pos_x (position new) = Fin x" "pos_y (position new) = Fin y"
  shows "pos_x (position (drone_boundary new)) = Fin (min (max x 10) 590)"
    and "pos_y (position (drone_boundary new)) = Fin (min (max y 10) 290)"
    and "590 < x \<or> x < 10 \<Longrightarrow> vel_x (velocity (drone_boundary new)) = Fin 0"
    and "290 < y \<or> y < 10 \<Longrightarrow> vel_y (velocity (drone_boundary new)) = Fin 0"
  using assms by (auto simp add: drone_boundary_def Let_def)

lemma drone_far_corner_tick:
  "physicsState (drone_updatePhysics (Fin 16) drone_far_corner)
     = \<lparr>position = \<lparr>pos_x = Fin 590, pos_y = Fin 290\<rparr>,
        velocity = \<lparr>vel_x = Fin 0, vel_y = Fin 0\<rparr>,
        rotation = Fin 0, angularVelocity = Fin 0\<rparr>"
  by (simp add: drone_updatePhysics_state drone_control_def drone_integrate_def
      calculateDisturbances_def drone_boundary_def Let_def drone_dt_def
      drone_far_corner_def initial_drone_def DEFAULT_DISTURBANCE_CONFIG_def
      DEFAULT_PHYSICS_PARAMS_def middle_draws_def Math_random_def minus_number_def)

text \<open>
  C3. The claim has the position in the rectangle \<open>10 \<le> x \<le> 590\<close>,
  \<open>10 \<le> y \<le> 290\<close> after every drone tick. The component with controllers, as
  the source starts it (position \<open>(100, 150)\<close>, default gains, controllers enabled)
  and with the integral gain of the attitude loop at 0, does this on a tick of 16 ms:
  the horizontal loop returns \<open>pi / 6\<close>, the attitude loop divides by its zero gain
  and returns \<open>NaN\<close>, the limiter of the thrusts passes \<open>NaN\<close> on, and the position
  and the velocity that are stored are \<open>NaN\<close>.
\<close>

theorem drone_tick_ki_zero_position_NaN:
  "currentLeftThrust (drone_control (drone_dt (Fin 16)) drone_ki_zero) = NaN
   \<and> currentRightThrust (drone_control (drone_dt (Fin 16)) drone_ki_zero) = NaN
   \<and> position (physicsState (drone_updatePhysics (Fin 16) drone_ki_zero))
       = \<lparr>pos_x = NaN, pos_y = NaN\<rparr>
   \<and> velocity (physicsState (drone_updatePhysics (Fin 16) drone_ki_zero))
       = \<lparr>vel_x = NaN, vel_y = NaN\<rparr>
   \<and> position (physicsState drone_ki_zero) = \<lparr>pos_x = Fin 100, pos_y = Fin 150\<rparr>"
proof -
  have st: "physicsState (drone_updatePhysics (Fin 16) drone_ki_zero)
     = drone_boundary (drone_integrate (drone_dt (Fin 16)) NaN NaN
         (fst (calculateDisturbances (disturbanceConfig drone_ki_zero) (Fin 16)
                (windStateRef drone_ki_zero, random drone_ki_zero)))
         (physicsState drone_ki_zero))"
    by (simp only: drone_updatePhysics_state drone_control_ki_zero)
  have p: "position (physicsState (drone_updatePhysics (Fin 16) drone_ki_zero))
       = \<lparr>pos_x = NaN, pos_y = NaN\<rparr>"
    "velocity (physicsState (drone_updatePhysics (Fin 16) drone_ki_zero))
       = \<lparr>vel_x = NaN, vel_y = NaN\<rparr>"
    by (simp_all add: st drone_boundary_def Let_def drone_integrate_NaN)
  have i: "position (physicsState drone_ki_zero) = \<lparr>pos_x = Fin 100, pos_y = Fin 150\<rparr>"
    by (simp add: drone_ki_zero_def initial_drone_def drone_hover_def)
  from drone_control_ki_zero p i show ?thesis by simp
qed

subsection \<open>Thrust and drag are taken at the old state\<close>

text \<open>
  C9. In both drone components the new rotation is the old one advanced by the new
  angular velocity, and yet the new velocities are computed from the thrust resolved
  along the old rotation and from the drag of the old velocities. So two ticks from the
  same rotation and velocities with the same total thrust store the same velocity and
  position, whatever the angular velocity and the split of the thrust between the two
  rotors, that is whatever new rotation the tick computes: the new rotation is first
  read by the next tick.
\<close>

theorem thrust_uses_previous_rotation:
  "rotation (simu_integrate deltaTime l r s)
     = rotation s + angularVelocity (simu_integrate deltaTime l r s) * dt_of deltaTime
   \<and> vel_y (velocity (simu_integrate deltaTime l r s))
     = vel_y (velocity s)
       + ((l + r) * cos (rotation s) - 9.8 - 0.1 * vel_y (velocity s) * \<bar>vel_y (velocity s)\<bar>)
         * dt_of deltaTime
   \<and> vel_x (velocity (simu_integrate deltaTime l r s))
     = vel_x (velocity s)
       + ((l + r) * sin (rotation s) - 0.1 * vel_x (velocity s) * \<bar>vel_x (velocity s)\<bar>)
         * dt_of deltaTime
   \<and> (l + r = l' + r' \<longrightarrow>
        velocity (simu_updatePhysics deltaTime l' r' (s\<lparr>angularVelocity := w\<rparr>))
          = velocity (simu_updatePhysics deltaTime l r s)
        \<and> position (simu_updatePhysics deltaTime l' r' (s\<lparr>angularVelocity := w\<rparr>))
          = position (simu_updatePhysics deltaTime l r s))
   \<and> rotation (drone_integrate dt a b d n)
     = rotation n + angularVelocity (drone_integrate dt a b d n) * dt
   \<and> vel_y (velocity (drone_integrate dt a b d n))
     = vel_y (velocity n)
       + ((a * noise_left d + b * noise_right d) * Math_cos (rotation n) - Fin 9.8
          - Fin 0.1 * vel_y (velocity n) * Math_abs (vel_y (velocity n))) * dt
   \<and> vel_x (velocity (drone_integrate dt a b d n))
     = vel_x (velocity n)
       + ((a * noise_left d + b * noise_right d) * Math_sin (rotation n) + windForce d
          - Fin 0.1 * vel_x (velocity n) * Math_abs (vel_x (velocity n))) * dt
   \<and> (a * noise_left d + b * noise_right d = a' * noise_left d + b' * noise_right d \<longrightarrow>
        velocity (drone_boundary (drone_integrate dt a' b' d (n\<lparr>angularVelocity := v\<rparr>)))
          = velocity (drone_boundary (drone_integrate dt a b d n))
        \<and> position (drone_boundary (drone_integrate dt a' b' d (n\<lparr>angularVelocity := v\<rparr>)))
          = position (drone_boundary (drone_integrate dt a b d n)))"
proof -
  have s1: "rotation (simu_integrate deltaTime l r s)
     = rotation s + angularVelocity (simu_integrate deltaTime l r s) * dt_of deltaTime"
    by (simp add: simu_integrate_def Let_def)
  have s2: "vel_y (velocity (simu_integrate deltaTime l r s))
     = vel_y (velocity s)
       + ((l + r) * cos (rotation s) - 9.8 - 0.1 * vel_y (velocity s) * \<bar>vel_y (velocity s)\<bar>)
         * dt_of deltaTime"
    by (simp add: simu_integrate_def Let_def PHYSICS_PARAMS_def)
  have s3: "vel_x (velocity (simu_integrate deltaTime l r s))
     = vel_x (velocity s)
       + ((l + r) * sin (rotation s) - 0.1 * vel_x (velocity s) * \<bar>vel_x (velocity s)\<bar>)
         * dt_of deltaTime"
    by (simp add: simu_integrate_def Let_def PHYSICS_PARAMS_def)
  have s4: "velocity (simu_updatePhysics deltaTime l' r' (s\<lparr>angularVelocity := w\<rparr>))
          = velocity (simu_updatePhysics deltaTime l r s)
        \<and> position (simu_updatePhysics deltaTime l' r' (s\<lparr>angularVelocity := w\<rparr>))
          = position (simu_updatePhysics deltaTime l r s)" if "l + r = l' + r'"
    using that by (simp add: simu_updatePhysics_def boundary_def simu_integrate_def Let_def)
  have d1: "rotation (drone_integrate dt a b d n)
     = rotation n + angularVelocity (drone_integrate dt a b d n) * dt"
    by (simp add: drone_integrate_def Let_def)
  have d2: "vel_y (velocity (drone_integrate dt a b d n))
     = vel_y (velocity n)
       + ((a * noise_left d + b * noise_right d) * Math_cos (rotation n) - Fin 9.8
          - Fin 0.1 * vel_y (velocity n) * Math_abs (vel_y (velocity n))) * dt"
    by (simp add: drone_integrate_def Let_def DEFAULT_PHYSICS_PARAMS_def)
  have d3: "vel_x (velocity (drone_integrate dt a b d n))
     = vel_x (velocity n)
       + ((a * noise_left d + b * noise_right d) * Math_sin (rotation n) + windForce d
          - Fin 0.1 * vel_x (velocity n) * Math_abs (vel_x (velocity n))) * dt"
    by (simp add: drone_integrate_def Let_def DEFAULT_PHYSICS_PARAMS_def)
  have d4: "velocity (drone_boundary (drone_integrate dt a' b' d (n\<lparr>angularVelocity := v\<rparr>)))
          = velocity (drone_boundary (drone_integrate dt a b d n))
        \<and> position (drone_boundary (drone_integrate dt a' b' d (n\<lparr>angularVelocity := v\<rparr>)))
          = position (drone_boundary (drone_integrate dt a b d n))"
    if "a * noise_left d + b * noise_right d = a' * noise_left d + b' * noise_right d"
    using that by (simp add: drone_boundary_def drone_integrate_def Let_def DEFAULT_PHYSICS_PARAMS_def)
  from s1 s2 s3 s4 d1 d2 d3 d4 show ?thesis by blast
qed

theorem thrust_uses_previous_rotation_witness:
  "(4::real) + 5.8 = 4.9 + 4.9
   \<and> velocity (simu_updatePhysics 16 4.9 4.9 hover) = velocity (simu_updatePhysics 16 4 5.8 hover)
   \<and> position (simu_updatePhysics 16 4.9 4.9 hover) = position (simu_updatePhysics 16 4 5.8 hover)
   \<and> rotation (simu_updatePhysics 16 4.9 4.9 hover) = 0
   \<and> rotation (simu_updatePhysics 16 4 5.8 hover) = 0.18432
   \<and> Fin 4 * noise_left calm + Fin 5.8 * noise_right calm
       = Fin 4.9 * noise_left calm + Fin 4.9 * noise_right calm
   \<and> velocity (drone_boundary (drone_integrate (Fin 0.16) (Fin 4.9) (Fin 4.9) calm drone_hover))
       = velocity (drone_boundary (drone_integrate (Fin 0.16) (Fin 4) (Fin 5.8) calm drone_hover))
   \<and> position (drone_boundary (drone_integrate (Fin 0.16) (Fin 4.9) (Fin 4.9) calm drone_hover))
       = position (drone_boundary (drone_integrate (Fin 0.16) (Fin 4) (Fin 5.8) calm drone_hover))
   \<and> rotation (drone_boundary (drone_integrate (Fin 0.16) (Fin 4.9) (Fin 4.9) calm drone_hover))
       = Fin 0
   \<and> rotation (drone_boundary (drone_integrate (Fin 0.16) (Fin 4) (Fin 5.8) calm drone_hover))
       = Fin 0.18432"
proof -
  have e: "(4::real) + 5.8 = 4.9 + 4.9"
    "Fin 4 * noise_left calm + Fin 5.8 * noise_right calm
       = Fin 4.9 * noise_left calm + Fin 4.9 * noise_right calm"
    by (simp_all add: calm_def)
  have h: "hover\<lparr>angularVelocity := 0\<rparr> = hover"
    "drone_hover\<lparr>angularVelocity := Fin 0\<rparr> = drone_hover"
    by (simp_all add: hover_def drone_hover_def)
  have r: "rotation (simu_updatePhysics 16 4.9 4.9 hover) = 0"
    "rotation (simu_updatePhysics 16 4 5.8 hover) = 0.18432"
    by (simp_all add: simu_updatePhysics_def boundary_def simu_integrate_def Let_def hover_def
        PHYSICS_PARAMS_def dt_of_def)
  have r': "rotation (drone_boundary (drone_integrate (Fin 0.16) (Fin 4.9) (Fin 4.9) calm drone_hover))
       = Fin 0"
    "rotation (drone_boundary (drone_integrate (Fin 0.16) (Fin 4) (Fin 5.8) calm drone_hover))
       = Fin 0.18432"
    by (simp_all add: drone_boundary_def drone_integrate_def Let_def drone_hover_def calm_def
        DEFAULT_PHYSICS_PARAMS_def minus_number_def)
  from thrust_uses_previous_rotation[of 16 4 "5.8" hover "4.9" "4.9" 0 "Fin 0.16" "Fin 4" "Fin 5.8"
         calm drone_hover "Fin 4.9" "Fin 4.9" "Fin 0"] e h r r'
  show ?thesis by simp
qed

subsection \<open>The disturbance generator\<close>

lemma calculateDisturbances_on:
  assumes "wind_enabled (wind cfg)"
  shows "time (fst (snd (calculateDisturbances cfg deltaTime (ws, g)))) = time ws + deltaTime"
    "windForce (fst (calculateDisturbances cfg deltaTime (ws, g)))
       = baseSpeed (wind cfg)
         + gustMagnitude (wind cfg)
           * Math_sin (Fin 2 * Fin pi * gustFrequency (wind cfg) * (time ws + deltaTime))
         + (Fin (draws g (cursor g)) - Fin 0.5) * Fin 2 * turbulenceIntensity (wind cfg)"
  using assms
  by (simp_all add: calculateDisturbances_def Let_def Math_random_def number_add_assoc
      number_mult_commute[of "gustMagnitude (wind cfg)"] split: prod.splits)

lemma calculateDisturbances_off:
  "\<not> wind_enabled (wind cfg) \<Longrightarrow> windForce (fst (calculateDisturbances cfg deltaTime (ws, g))) = Fin 0"
  "\<not> wind_enabled (wind cfg) \<Longrightarrow> fst (snd (calculateDisturbances cfg deltaTime (ws, g))) = ws"
  "\<not> thrust_enabled (thrust cfg) \<Longrightarrow> noise_left (fst (calculateDisturbances cfg deltaTime (ws, g))) = Fin 1"
  "\<not> thrust_enabled (thrust cfg) \<Longrightarrow> noise_right (fst (calculateDisturbances cfg deltaTime (ws, g))) = Fin 1"
  by (simp_all add: calculateDisturbances_def Let_def Math_random_def split: prod.splits)

lemma drone_updatePhysics_wind:
  "windStateRef (drone_updatePhysics deltaTime sim)
     = fst (snd (calculateDisturbances (disturbanceConfig sim) deltaTime
                   (windStateRef sim, random sim)))"
  by (simp add: drone_updatePhysics_def Let_def split: prod.splits)

text \<open>
  C7, as stated, has the wind clock advance by the step \<open>dt\<close> of the tick. The
  tick computes \<open>dt = deltaTime / 100\<close> for the controllers and the integration and
  hands the generator \<open>deltaTime\<close> itself: after a tick of 16 ms under the default
  configuration the clock has advanced by 16, not by 0.16.
\<close>

theorem wind_clock_not_dt_counterexample:
  "wind_enabled (wind (disturbanceConfig initial_drone))
   \<and> time (windStateRef (drone_updatePhysics (Fin 16) initial_drone))
       \<noteq> time (windStateRef initial_drone) + drone_dt (Fin 16)"
  by (simp add: drone_updatePhysics_wind calculateDisturbances_def Let_def Math_random_def
      DEFAULT_DISTURBANCE_CONFIG_def initial_drone_def drone_dt_def split: prod.splits)

text \<open>
  C7, amended. With the wind enabled the generator advances its clock by exactly the
  \<open>deltaTime\<close> it is given, which in a tick is a hundred times the step \<open>dt\<close>,
  and returns the base speed plus the gust magnitude times the sine of
  \<open>2 pi\<close> times the gust frequency times the advanced clock, plus the turbulence
  \<open>(u - 0.5) * 2 * turbulenceIntensity\<close> for the next draw \<open>u\<close>; with the wind
  disabled the wind force is 0 and the clock stands; with the thrust noise disabled both
  noise factors are 1.
\<close>

theorem wind_clock_advances_by_deltaTime:
  "(wind_enabled (wind cfg) \<longrightarrow>
      time (fst (snd (calculateDisturbances cfg deltaTime (ws, g)))) = time ws + deltaTime
      \<and> windForce (fst (calculateDisturbances cfg deltaTime (ws, g)))
          = baseSpeed (wind cfg)
            + gustMagnitude (wind cfg)
              * Math_sin (Fin 2 * Fin pi * gustFrequency (wind cfg)
                          * time (fst (snd (calculateDisturbances cfg deltaTime (ws, g)))))
            + (Fin (draws g (cursor g)) - Fin 0.5) * Fin 2 * turbulenceIntensity (wind cfg))
   \<and> (wind_enabled (wind (disturbanceConfig sim)) \<longrightarrow>
        time (windStateRef (drone_updatePhysics deltaTime sim))
          = time (windStateRef sim) + Fin 100 * drone_dt deltaTime)
   \<and> (\<not> wind_enabled (wind cfg) \<longrightarrow>
        windForce (fst (calculateDisturbances cfg deltaTime (ws, g))) = Fin 0
        \<and> fst (snd (calculateDisturbances cfg deltaTime (ws, g))) = ws)
   \<and> (\<not> thrust_enabled (thrust cfg) \<longrightarrow>
        noise_left (fst (calculateDisturbances cfg deltaTime (ws, g))) = Fin 1
        \<and> noise_right (fst (calculateDisturbances cfg deltaTime (ws, g))) = Fin 1)
   \<and> windStateRef (drone_updatePhysics deltaTime sim)
       = fst (snd (calculateDisturbances (disturbanceConfig sim) deltaTime
                     (windStateRef sim, random sim)))"
proof -
  have tick: "time (windStateRef (drone_updatePhysics deltaTime sim))
          = time (windStateRef sim) + Fin 100 * drone_dt deltaTime"
    if "wind_enabled (wind (disturbanceConfig sim))"
    using calculateDisturbances_on(1)[OF that]
    by (simp add: drone_updatePhysics_wind drone_dt_def)
  show ?thesis
    using tick calculateDisturbances_on[of cfg deltaTime ws g]
      calculateDisturbances_off[of cfg deltaTime ws g] drone_updatePhysics_wind[of deltaTime sim]
    by simp
qed

theorem wind_clock_advances_by_deltaTime_witness:
  "wind_enabled (wind windy_config)
   \<and> time (windStateRef (drone_updatePhysics (Fin 16)
             (initial_drone\<lparr>disturbanceConfig := windy_config\<rparr>))) = Fin 16
   \<and> windForce (fst (calculateDisturbances windy_config (Fin 16)
                        (windStateRef initial_drone, upper_draws))) = Fin 2.55
   \<and> \<not> wind_enabled (wind disabled_config) \<and> \<not> thrust_enabled (thrust disabled_config)
   \<and> windForce (fst (calculateDisturbances disabled_config (Fin 16)
                        (windStateRef initial_drone, upper_draws))) = Fin 0
   \<and> noise_left (fst (calculateDisturbances disabled_config (Fin 16)
                         (windStateRef initial_drone, upper_draws))) = Fin 1
   \<and> noise_right (fst (calculateDisturbances disabled_config (Fin 16)
                          (windStateRef initial_drone, upper_draws))) = Fin 1"
proof -
  let ?windy = "initial_drone\<lparr>disturbanceConfig := windy_config\<rparr>"
  have on: "wind_enabled (wind windy_config)" "wind_enabled (wind (disturbanceConfig ?windy))"
    by (simp_all add: windy_config_def)
  have off: "\<not> wind_enabled (wind disabled_config)" "\<not> thrust_enabled (thrust disabled_config)"
    by (simp_all add: disabled_config_def)
  have v: "time (windStateRef initial_drone) = Fin 0" "time (windStateRef ?windy) = Fin 0"
    "baseSpeed (wind windy_config) = Fin 0.5" "gustMagnitude (wind windy_config) = Fin 2"
    "turbulenceIntensity (wind windy_config) = Fin 0.1"
    "gustFrequency (wind windy_config) = Fin (1 / 64)"
    "draws upper_draws (cursor upper_draws) = 3 / 4"
    by (simp_all add: initial_drone_def windy_config_def upper_draws_def)
  have ph: "2 * pi * 16 / 64 = pi / 2" by simp
  from on wind_clock_advances_by_deltaTime[of windy_config "Fin 16" "windStateRef initial_drone"
      upper_draws ?windy]
  have t: "time (windStateRef (drone_updatePhysics (Fin 16) ?windy))
             = time (windStateRef ?windy) + Fin 100 * drone_dt (Fin 16)"
    and c: "time (fst (snd (calculateDisturbances windy_config (Fin 16)
                              (windStateRef initial_drone, upper_draws))))
             = time (windStateRef initial_drone) + Fin 16"
    and f: "windForce (fst (calculateDisturbances windy_config (Fin 16)
                              (windStateRef initial_drone, upper_draws)))
             = baseSpeed (wind windy_config)
               + gustMagnitude (wind windy_config)
                 * Math_sin (Fin 2 * Fin pi * gustFrequency (wind windy_config)
                     * time (fst (snd (calculateDisturbances windy_config (Fin 16)
                                         (windStateRef initial_drone, upper_draws)))))
               + (Fin (draws upper_draws (cursor upper_draws)) - Fin 0.5) * Fin 2
                 * turbulenceIntensity (wind windy_config)"
    by blast+
  have 1: "time (windStateRef (drone_updatePhysics (Fin 16) ?windy)) = Fin 16"
    "windForce (fst (calculateDisturbances windy_config (Fin 16)
                        (windStateRef initial_drone, upper_draws))) = Fin 2.55"
    by (simp_all add: t f c v drone_dt_def minus_number_def ph)
  from off wind_clock_advances_by_deltaTime[of disabled_config "Fin 16"
      "windStateRef initial_drone" upper_draws]
  have 2: "windForce (fst (calculateDisturbances disabled_config (Fin 16)
                        (windStateRef initial_drone, upper_draws))) = Fin 0"
   "noise_left (fst (calculateDisturbances disabled_config (Fin 16)
                         (windStateRef initial_drone, upper_draws))) = Fin 1"
   "noise_right (fst (calculateDisturbances disabled_config (Fin 16)
                          (windStateRef initial_drone, upper_draws))) = Fin 1"
    by simp_all
  from on off 1 2 show ?thesis by simp
qed

end
